theory Spec2Isabelle
  imports Complex_Main "HOL-Library.Word"
begin

section \<open>Spam detection: violation records and the escalation decision\<close>

text \<open>
  The class \<open>SpamDetection\<close> keeps two collections keyed by the user id: the recent
  messages of every user and the violation record of every user. A JavaScript string is
  a sequence of UTF-16 code units; message contents are lists of code units. User ids and
  reasons are plain identifiers and texts. Numbers are IEEE doubles in the source; counters
  and timestamps only ever hold integers, severities and confidences are modelled as reals.
\<close>

type_synonym jsstring = "nat list"

record msg =
  content :: jsstring
  timestamp :: int
  channelId :: string

text \<open>
  A violation record. The default object \<open>{ count: 0, lastViolation: 0 }\<close> has no
  \<open>lastReason\<close> and no \<open>lastSeverity\<close>.
\<close>

record violation =
  count :: nat
  lastViolation :: int
  lastReason :: "string option"
  lastSeverity :: "real option"

record spam_config =
  maxDuplicateMessages :: int
  maxMessagesPerMinute :: int

record spam_state =
  userMessages :: "string \<rightharpoonup> msg list"
  userViolations :: "string \<rightharpoonup> violation"
  suspiciousPatterns :: "string \<rightharpoonup> nat"

datatype action = ANone | Warn | Timeout | Kick | Ban | Delete

definition new_SpamDetection :: spam_state where
  "new_SpamDetection =
     \<lparr>userMessages = Map.empty, userViolations = Map.empty, suspiciousPatterns = Map.empty\<rparr>"

definition default_violation :: violation where
  "default_violation = \<lparr>count = 0, lastViolation = 0, lastReason = None, lastSeverity = None\<rparr>"

definition getUserViolations :: "spam_state \<Rightarrow> string \<Rightarrow> violation" where
  "getUserViolations s userId =
     (case userViolations s userId of Some v \<Rightarrow> v | None \<Rightarrow> default_violation)"

definition determineAction :: "spam_state \<Rightarrow> string \<Rightarrow> real \<Rightarrow> action" where
  "determineAction s userId sev =
     (let violations = getUserViolations s userId in
      if sev \<ge> 80 \<or> count violations \<ge> 5 then Ban
      else if sev \<ge> 60 \<or> count violations \<ge> 3 then Kick
      else if sev \<ge> 40 \<or> count violations \<ge> 2 then Timeout
      else if sev \<ge> 20 \<or> count violations \<ge> 1 then Warn
      else ANone)"

text \<open>
  \<open>addViolation\<close> reads the clock once; the reading is the parameter \<open>now\<close>. It returns
  the updated record together with the new state.
\<close>

definition addViolation :: "spam_state \<Rightarrow> int \<Rightarrow> string \<Rightarrow> string \<Rightarrow> real \<Rightarrow> violation \<times> spam_state" where
  "addViolation s now userId reason sev =
     (let violations = getUserViolations s userId;
          violations' = violations\<lparr>count := count violations + 1, lastViolation := now,
                                    lastReason := Some reason, lastSeverity := Some sev\<rparr>
      in (violations', s\<lparr>userViolations := (userViolations s)(userId \<mapsto> violations')\<rparr>))"

text \<open>
  \<open>cleanup\<close>: message histories keep the messages younger than five minutes and a user
  whose history becomes empty is dropped; a violation record whose last violation is more
  than one hour old is deleted; the pattern counters are cleared.
\<close>

definition cleanup :: "spam_state \<Rightarrow> int \<Rightarrow> spam_state" where
  "cleanup s now =
     (let oneHour = 60 * 60 * 1000; fiveMinutes = 5 * 60 * 1000 in
      \<lparr>userMessages = (\<lambda>userId. case userMessages s userId of
           None \<Rightarrow> None
         | Some messages \<Rightarrow>
             (let recentMessages = filter (\<lambda>m. now - timestamp m < fiveMinutes) messages
              in if length recentMessages = 0 then None else Some recentMessages)),
       userViolations = (\<lambda>userId. case userViolations s userId of
           None \<Rightarrow> None
         | Some v \<Rightarrow> if now - lastViolation v > oneHour then None else Some v),
       suspiciousPatterns = Map.empty\<rparr>)"

text \<open>Five consecutive \<open>addViolation\<close> calls, each with its own clock reading and reason.\<close>

fun addViolations :: "spam_state \<Rightarrow> string \<Rightarrow> (int \<times> string \<times> real) list \<Rightarrow> spam_state" where
  "addViolations s userId [] = s"
| "addViolations s userId ((now, reason, sev) # calls) =
     addViolations (snd (addViolation s now userId reason sev)) userId calls"

section \<open>String similarity (utils)\<close>

text \<open>
  \<open>levenshteinDistance\<close> fills a matrix of JavaScript arrays. An array is modelled by
  the values stored at its indices: reading an index that was never written yields
  \<open>undefined\<close>, and arithmetic on \<open>undefined\<close> yields \<open>NaN\<close>; both are the cell value
  \<open>None\<close>. Indexing a row that does not exist throws; the exception is the matrix state
  \<open>None\<close>. The loops \<open>for (let k = a; k <= b; k++)\<close> are folds over \<open>[a..<Suc b]\<close>.
  \<open>charAt\<close> outside the string yields the empty string, here \<open>None\<close>.
\<close>

type_synonym row = "nat \<Rightarrow> nat option"
type_synonym matrix = "nat \<Rightarrow> row option"

definition charAt :: "'a list \<Rightarrow> nat \<Rightarrow> 'a option" where
  "charAt s k = (if k < length s then Some (s ! k) else None)"

definition js_succ :: "nat option \<Rightarrow> nat option" where
  "js_succ a = (case a of Some x \<Rightarrow> Some (x + 1) | None \<Rightarrow> None)"

definition js_min3 :: "nat option \<Rightarrow> nat option \<Rightarrow> nat option \<Rightarrow> nat option" where
  "js_min3 a b c =
     (case a of None \<Rightarrow> None | Some x \<Rightarrow>
       (case b of None \<Rightarrow> None | Some y \<Rightarrow>
         (case c of None \<Rightarrow> None | Some z \<Rightarrow> Some (min x (min y z)))))"

definition lev_init_rows :: "nat \<Rightarrow> matrix option" where
  "lev_init_rows len2 =
     fold (\<lambda>i mo. case mo of None \<Rightarrow> None
                  | Some m \<Rightarrow> Some (m(i \<mapsto> (\<lambda>k. None)(0 := Some i))))
          [0..<Suc len2] (Some (\<lambda>i. None))"

definition lev_init_cols :: "nat \<Rightarrow> matrix option \<Rightarrow> matrix option" where
  "lev_init_cols len1 =
     fold (\<lambda>j mo. case mo of None \<Rightarrow> None
                  | Some m \<Rightarrow> (case m 0 of None \<Rightarrow> None
                               | Some r0 \<Rightarrow> Some (m(0 \<mapsto> r0(j := Some j)))))
          [0..<Suc len1]"

definition lev_cell :: "'a list \<Rightarrow> 'a list \<Rightarrow> nat \<Rightarrow> nat \<Rightarrow> matrix option \<Rightarrow> matrix option" where
  "lev_cell str1 str2 i j mo =
     (case mo of None \<Rightarrow> None | Some m \<Rightarrow>
       (case m i of None \<Rightarrow> None | Some ri \<Rightarrow>
         (case m (i - 1) of None \<Rightarrow> None | Some rp \<Rightarrow>
            if charAt str2 (i - 1) = charAt str1 (j - 1)
            then Some (m(i \<mapsto> ri(j := rp (j - 1))))
            else Some (m(i \<mapsto> ri(j := js_min3 (js_succ (rp (j - 1)))
                                                 (js_succ (ri (j - 1)))
                                                 (js_succ (rp j))))))))"

definition lev_row :: "'a list \<Rightarrow> 'a list \<Rightarrow> nat \<Rightarrow> matrix option \<Rightarrow> matrix option" where
  "lev_row str1 str2 i = fold (lev_cell str1 str2 i) [1..<Suc (length str1)]"

definition levenshteinDistance :: "'a list \<Rightarrow> 'a list \<Rightarrow> nat option" where
  "levenshteinDistance str1 str2 =
     (case fold (lev_row str1 str2) [1..<Suc (length str2)]
             (lev_init_cols (length str1) (lev_init_rows (length str2))) of
        None \<Rightarrow> None
      | Some m \<Rightarrow> (case m (length str2) of None \<Rightarrow> None | Some r \<Rightarrow> r (length str1)))"

definition calculateSimilarity :: "'a list \<Rightarrow> 'a list \<Rightarrow> real option" where
  "calculateSimilarity str1 str2 =
     (let longer = (if length str1 > length str2 then str1 else str2);
          shorter = (if length str1 > length str2 then str2 else str1)
      in if length longer = 0 then Some 1
         else (case levenshteinDistance longer shorter of
                 None \<Rightarrow> None
               | Some distance \<Rightarrow>
                   Some ((real (length longer) - real distance) / real (length longer))))"

text \<open>
  The distance of the recurrence the loop body implements, on the last characters of
  the two prefixes (the lists are the reversed prefixes), and the invariant of the loops:
  the cells filled so far hold the distances of the prefixes.
\<close>

fun lev :: "'a list \<Rightarrow> 'a list \<Rightarrow> nat" where
  "lev [] ys = length ys"
| "lev xs [] = length xs"
| "lev (x # xs) (y # ys) =
     (if x = y then lev xs ys
      else min (lev xs ys + 1) (min (lev (x # xs) ys + 1) (lev xs (y # ys) + 1)))"

definition lev_D :: "'a list \<Rightarrow> 'a list \<Rightarrow> nat \<Rightarrow> nat \<Rightarrow> nat" where
  "lev_D str1 str2 i j = lev (rev (take i str2)) (rev (take j str1))"

definition cell :: "matrix \<Rightarrow> nat \<Rightarrow> nat \<Rightarrow> nat option" where
  "cell m i j = (case m i of None \<Rightarrow> None | Some r \<Rightarrow> r j)"

definition lev_inv :: "'a list \<Rightarrow> 'a list \<Rightarrow> nat \<Rightarrow> nat \<Rightarrow> matrix \<Rightarrow> bool" where
  "lev_inv str1 str2 i j m \<longleftrightarrow>
     (\<forall>i' \<le> length str2. m i' \<noteq> None) \<and>
     (\<forall>i' j'. i' \<le> length str2 \<longrightarrow> j' \<le> length str1 \<longrightarrow>
        (i' < i \<or> (i' = i \<and> j' < j) \<or> j' = 0) \<longrightarrow>
        cell m i' j' = Some (lev_D str1 str2 i' j'))"

section \<open>Spam detection: the checks on a message\<close>

text \<open>
  The reasons are template strings in the source; each constructor stands for one
  template and carries the number the template prints.
\<close>

datatype reason =
    DuplicateMessage nat
  | MessageFlooding nat
  | BurstMessaging nat
  | ExcessiveRepeatedChars
  | ExcessiveCapsLock
  | ExcessiveEmojis nat
  | ZalgoText
  | InvisibleCharSpam
  | SimilarMessages int

record check_result =
  isSpam :: bool
  confidence :: real
  reasons :: "reason list"
  severity :: real

record analysis = check_result +
  action :: action

definition empty_result :: check_result where
  "empty_result = \<lparr>isSpam = False, confidence = 0, reasons = [], severity = 0\<rparr>"

text \<open>
  One triggered signal: \<open>result.isSpam = true; result.confidence += c;
  result.reasons.push(r); result.severity += v\<close>.
\<close>

definition flag :: "check_result \<Rightarrow> real \<Rightarrow> reason \<Rightarrow> real \<Rightarrow> check_result" where
  "flag r c rsn v =
     r\<lparr>isSpam := True, confidence := confidence r + c,
       reasons := reasons r @ [rsn], severity := severity r + v\<rparr>"

definition checkDuplicateMessages :: "spam_config \<Rightarrow> msg list \<Rightarrow> jsstring \<Rightarrow> check_result" where
  "checkDuplicateMessages cfg messages currentContent =
     (let duplicateCount = length (filter (\<lambda>m. content m = currentContent) messages) in
      if int duplicateCount > maxDuplicateMessages cfg
      then \<lparr>isSpam = True,
            confidence = min (real duplicateCount * 20) 80,
            reasons = [DuplicateMessage duplicateCount],
            severity = min (real duplicateCount * 15) 60\<rparr>
      else empty_result)"

definition checkMessageFrequency :: "spam_config \<Rightarrow> msg list \<Rightarrow> int \<Rightarrow> check_result" where
  "checkMessageFrequency cfg messages now =
     (let oneMinuteAgo = now - 60000;
          recentCount = length (filter (\<lambda>m. timestamp m > oneMinuteAgo) messages);
          result =
            (if int recentCount > maxMessagesPerMinute cfg
             then \<lparr>isSpam = True,
                   confidence = min (real_of_int (int recentCount - maxMessagesPerMinute cfg) * 10) 70,
                   reasons = [MessageFlooding recentCount],
                   severity = min (real_of_int (int recentCount - maxMessagesPerMinute cfg) * 8) 50\<rparr>
             else empty_result);
          tenSecondsAgo = now - 10000;
          burstCount = length (filter (\<lambda>m. timestamp m > tenSecondsAgo) messages)
      in if burstCount \<ge> 5
         then flag result (min (real burstCount * 8) 40) (BurstMessaging burstCount)
                (min (real burstCount * 6) 30)
         else result)"

subsection \<open>The five patterns\<close>

text \<open>
  \<open>/(.)\1{4,}/g\<close>: the dot matches every code unit but a line terminator, the greedy
  back-reference takes the whole run that follows. From left to right, a position
  matches when at least four more copies of its code unit follow, the match is the run,
  and the search resumes after it; otherwise the search resumes at the next position.
\<close>

definition lineTerminator :: "nat \<Rightarrow> bool" where
  "lineTerminator c \<longleftrightarrow> c = 0x0A \<or> c = 0x0D \<or> c = 0x2028 \<or> c = 0x2029"

function match_repeatedChars :: "jsstring \<Rightarrow> jsstring list" where
  "match_repeatedChars [] = []"
| "match_repeatedChars (c # rest) =
     (if \<not> lineTerminator c \<and> length (takeWhile (\<lambda>x. x = c) rest) \<ge> 4
      then (c # takeWhile (\<lambda>x. x = c) rest) # match_repeatedChars (dropWhile (\<lambda>x. x = c) rest)
      else match_repeatedChars rest)"
  by pat_completeness auto
termination
  by (relation "measure length") (auto simp: length_dropWhile_le less_Suc_eq_le)

text \<open>
  \<open>/[A-Z]{10,}/g\<close>: a position matches when it starts at least ten capital letters;
  the greedy match is the whole run of capitals from there.
\<close>

definition capital :: "nat \<Rightarrow> bool" where
  "capital c \<longleftrightarrow> 0x41 \<le> c \<and> c \<le> 0x5A"

function match_capsLock :: "jsstring \<Rightarrow> jsstring list" where
  "match_capsLock [] = []"
| "match_capsLock (c # rest) =
     (if capital c \<and> length (c # takeWhile capital rest) \<ge> 10
      then (c # takeWhile capital rest) # match_capsLock (dropWhile capital rest)
      else match_capsLock rest)"
  by pat_completeness auto
termination
  by (relation "measure length") (auto simp: length_dropWhile_le less_Suc_eq_le)

text \<open>
  The emoji pattern has the \<open>u\<close> flag: it reads the string by code points, a high
  surrogate followed by a low surrogate being one code point. Each code point in one of the
  four ranges is one match.
\<close>

fun codePoints :: "jsstring \<Rightarrow> nat list" where
  "codePoints [] = []"
| "codePoints [c] = [c]"
| "codePoints (h # l # rest) =
     (if 0xD800 \<le> h \<and> h \<le> 0xDBFF \<and> 0xDC00 \<le> l \<and> l \<le> 0xDFFF
      then (0x10000 + (h - 0xD800) * 0x400 + (l - 0xDC00)) # codePoints rest
      else h # codePoints (l # rest))"

definition emoji :: "nat \<Rightarrow> bool" where
  "emoji cp \<longleftrightarrow> (0x1F600 \<le> cp \<and> cp \<le> 0x1F64F) \<or> (0x1F300 \<le> cp \<and> cp \<le> 0x1F5FF)
     \<or> (0x1F680 \<le> cp \<and> cp \<le> 0x1F6FF) \<or> (0x1F1E0 \<le> cp \<and> cp \<le> 0x1F1FF)"

definition zalgo :: "nat \<Rightarrow> bool" where
  "zalgo c \<longleftrightarrow> (0x0300 \<le> c \<and> c \<le> 0x036F) \<or> (0x1AB0 \<le> c \<and> c \<le> 0x1AFF)
     \<or> (0x1DC0 \<le> c \<and> c \<le> 0x1DFF) \<or> (0x20D0 \<le> c \<and> c \<le> 0x20FF)"

definition invisible :: "nat \<Rightarrow> bool" where
  "invisible c \<longleftrightarrow> (0x200B \<le> c \<and> c \<le> 0x200D) \<or> c = 0xFEFF"

text \<open>
  \<open>String.prototype.match\<close> with a global pattern returns \<open>null\<close> when nothing
  matches and the array of the matches otherwise; \<open>null\<close> is the empty list here.
\<close>

definition checkContentPatterns :: "jsstring \<Rightarrow> check_result" where
  "checkContentPatterns cnt =
     (let result = empty_result;
          repeatedMatches = match_repeatedChars cnt;
          result = (if repeatedMatches \<noteq> [] \<and> length repeatedMatches > 0
                    then flag result 25 ExcessiveRepeatedChars 20 else result);
          capsMatches = match_capsLock cnt;
          result = (if capsMatches \<noteq> [] \<and> length cnt > 20
                    then (let capsRatio = real (length (concat capsMatches)) / real (length cnt)
                          in if capsRatio > 0.7
                             then flag result 20 ExcessiveCapsLock 15 else result)
                    else result);
          emojiMatches = filter emoji (codePoints cnt);
          result = (if emojiMatches \<noteq> [] \<and> length emojiMatches > 10
                    then flag result 30 (ExcessiveEmojis (length emojiMatches)) 25 else result);
          zalgoMatches = filter zalgo cnt;
          result = (if zalgoMatches \<noteq> [] \<and> length zalgoMatches > 20
                    then flag result 40 ZalgoText 35 else result);
          invisibleMatches = filter invisible cnt;
          result = (if invisibleMatches \<noteq> [] \<and> length invisibleMatches > 5
                    then flag result 35 InvisibleCharSpam 30 else result)
      in result)"

subsection \<open>Similarity with the recent messages\<close>

text \<open>
  The loop over the last five messages keeps the greatest similarity and the number of
  similarities above 0.8. \<open>calculateSimilarity\<close> always returns a number (lemma
  \<open>calculateSimilarity_eq\<close>), so the branch for a missing number leaves the loop state
  as it is. \<open>Math.round(x)\<close> is \<open>\<lfloor>x + 1/2\<rfloor>\<close>.
\<close>

definition similarity_step :: "jsstring \<Rightarrow> msg \<Rightarrow> real \<times> nat \<Rightarrow> real \<times> nat" where
  "similarity_step currentContent m acc =
     (case acc of (maxSimilarity, similarCount) \<Rightarrow>
        if content m = currentContent then acc
        else (case calculateSimilarity (content m) currentContent of
                None \<Rightarrow> acc
              | Some similarity \<Rightarrow>
                  (max maxSimilarity similarity,
                   if similarity > 0.8 then similarCount + 1 else similarCount)))"

definition checkMessageSimilarity :: "msg list \<Rightarrow> jsstring \<Rightarrow> check_result" where
  "checkMessageSimilarity messages currentContent =
     (if length messages < 2 then empty_result
      else
        (let recentMessages = drop (length messages - 5) messages;
             acc = fold (similarity_step currentContent) recentMessages (0, 0);
             maxSimilarity = fst acc;
             similarCount = snd acc
         in if maxSimilarity > 0.85 \<or> similarCount \<ge> 2
            then \<lparr>isSpam = True,
                  confidence = min (maxSimilarity * 60) 50,
                  reasons = [SimilarMessages \<lfloor>maxSimilarity * 100 + 1 / 2\<rfloor>],
                  severity = min (maxSimilarity * 40) 35\<rparr>
            else empty_result))"

subsection \<open>The analysis of one message\<close>

text \<open>
  \<open>analyzeMessage\<close> prunes the history of the author to the last five minutes, appends
  the current message, stores the history, runs the four checks on it, sums the
  confidences and severities of the checks that triggered, decides the action and caps the
  confidence at 100. The clock is read once; \<open>chan\<close> is \<open>message.channel?.id\<close>.
\<close>

definition merge_check :: "check_result \<Rightarrow> check_result \<Rightarrow> check_result" where
  "merge_check a r =
     (if isSpam r
      then a\<lparr>isSpam := True, confidence := confidence a + confidence r,
             reasons := reasons a @ reasons r, severity := severity a + severity r\<rparr>
      else a)"

definition recent_history :: "spam_state \<Rightarrow> string \<Rightarrow> jsstring \<Rightarrow> string option \<Rightarrow> int \<Rightarrow> msg list" where
  "recent_history s userId cnt chan now =
     (let userHistory = (case userMessages s userId of None \<Rightarrow> [] | Some h \<Rightarrow> h);
          fiveMinutesAgo = now - (5 * 60 * 1000);
          recentMessages = filter (\<lambda>m. timestamp m > fiveMinutesAgo) userHistory
      in recentMessages @
           [\<lparr>content = cnt, timestamp = now,
             channelId = (case chan of Some c \<Rightarrow> if c = [] then ''unknown'' else c
                                     | None \<Rightarrow> ''unknown'')\<rparr>])"

definition analyzeMessage ::
  "spam_config \<Rightarrow> spam_state \<Rightarrow> string \<Rightarrow> jsstring \<Rightarrow> string option \<Rightarrow> int \<Rightarrow> analysis \<times> spam_state" where
  "analyzeMessage cfg s userId cnt chan now =
     (let recentMessages = recent_history s userId cnt chan now;
          s' = s\<lparr>userMessages := (userMessages s)(userId \<mapsto> recentMessages)\<rparr>;
          a = empty_result;
          a = merge_check a (checkDuplicateMessages cfg recentMessages cnt);
          a = merge_check a (checkMessageFrequency cfg recentMessages now);
          a = merge_check a (checkContentPatterns cnt);
          a = merge_check a (checkMessageSimilarity recentMessages cnt)
      in (\<lparr>isSpam = isSpam a,
           confidence = min (confidence a) 100,
           reasons = reasons a,
           severity = severity a,
           action = determineAction s' userId (severity a)\<rparr>, s'))"

text \<open>The same author sending the same content at the given clock readings, in order.\<close>

fun sendAll :: "spam_config \<Rightarrow> spam_state \<Rightarrow> string \<Rightarrow> jsstring \<Rightarrow> int list \<Rightarrow> spam_state" where
  "sendAll cfg s userId cnt [] = s"
| "sendAll cfg s userId cnt (t # ts) =
     sendAll cfg (snd (analyzeMessage cfg s userId cnt None t)) userId cnt ts"

text \<open>A message of 21 different combining marks, U+0300 to U+0314.\<close>

definition zalgo21 :: jsstring where
  "zalgo21 = [768, 769, 770, 771, 772, 773, 774, 775, 776, 777, 778, 779, 780, 781, 782,
              783, 784, 785, 786, 787, 788]"

text \<open>
  More messages for the pattern check: \<open>ABCDEFGHIJ KLMNOPQRST\<close>; five line feeds; six times
  U+1F600 (as surrogate pairs); the eleven emoji U+1F910 to U+1F91A; the 21 combining
  marks U+0591 to U+05A5; the six zero-width characters U+2060 to U+2064 and U+200E; and
  five letters \<open>a\<close>.
\<close>

definition capsTwice :: jsstring where
  "capsTwice = [65, 66, 67, 68, 69, 70, 71, 72, 73, 74, 32, 75, 76, 77, 78, 79, 80, 81, 82, 83, 84]"

definition newlines5 :: jsstring where
  "newlines5 = [10, 10, 10, 10, 10]"

definition grinning6 :: jsstring where
  "grinning6 = [0xD83D, 0xDE00, 0xD83D, 0xDE00, 0xD83D, 0xDE00, 0xD83D, 0xDE00, 0xD83D, 0xDE00,
                0xD83D, 0xDE00]"

definition faces11 :: jsstring where
  "faces11 = [0xD83E, 0xDD10, 0xD83E, 0xDD11, 0xD83E, 0xDD12, 0xD83E, 0xDD13, 0xD83E, 0xDD14,
              0xD83E, 0xDD15, 0xD83E, 0xDD16, 0xD83E, 0xDD17, 0xD83E, 0xDD18, 0xD83E, 0xDD19,
              0xD83E, 0xDD1A]"

definition accents21 :: jsstring where
  "accents21 = [0x0591, 0x0592, 0x0593, 0x0594, 0x0595, 0x0596, 0x0597, 0x0598, 0x0599, 0x059A,
                0x059B, 0x059C, 0x059D, 0x059E, 0x059F, 0x05A0, 0x05A1, 0x05A2, 0x05A3, 0x05A4,
                0x05A5]"

definition joiners6 :: jsstring where
  "joiners6 = [0x2060, 0x2061, 0x2062, 0x2063, 0x2064, 0x200E]"

definition aaaaa :: jsstring where
  "aaaaa = [97, 97, 97, 97, 97]"

text \<open>
  The \<open>spam\<close> section of the default configuration: \<open>maxDuplicateMessages: 1\<close>,
  \<open>maxMessagesPerMinute: 10\<close>.
\<close>

definition default_spam_config :: spam_config where
  "default_spam_config = \<lparr>maxDuplicateMessages = 1, maxMessagesPerMinute = 10\<rparr>"

text \<open>
  The stored history of a user (empty when the user has none) and the number of messages
  of a list whose content is exactly the given one.
\<close>

definition history :: "spam_state \<Rightarrow> string \<Rightarrow> msg list" where
  "history s userId = (case userMessages s userId of None \<Rightarrow> [] | Some h \<Rightarrow> h)"

definition copies :: "jsstring \<Rightarrow> msg list \<Rightarrow> nat" where
  "copies cnt h = length (filter (\<lambda>m. content m = cnt) h)"

section \<open>Security module: account risk and raid detection\<close>

text \<open>
  The code units of a literal of the source.
\<close>

definition str :: "string \<Rightarrow> jsstring" where
  "str s = map of_char s"

text \<open>
  A member's user object. \<open>user.id\<close> is a decimal snowflake, read by \<open>BigInt(user.id)\<close>;
  \<open>member.id\<close> is the same id. \<open>avatar\<close> is \<open>null\<close> or a hash.
\<close>

record user =
  user_id :: nat
  username :: jsstring
  avatar :: "string option"
  discriminator :: string
  createdTimestamp :: int

subsection \<open>The username patterns\<close>

text \<open>
  The patterns carry the flag \<open>i\<close> and no flag \<open>u\<close>: a letter of the pattern matches its
  two ASCII cases and nothing else, \<open>[a-z]\<close> matches the ASCII letters, \<open>\d\<close> the ASCII
  digits. The classes of letters and digits are disjoint, so an anchored pattern
  \<open>^[a-z]+\d{4,}$\<close> has one way to split the name.
\<close>

definition letter :: "nat \<Rightarrow> bool" where
  "letter c \<longleftrightarrow> (65 \<le> c \<and> c \<le> 90) \<or> (97 \<le> c \<and> c \<le> 122)"

definition digit :: "nat \<Rightarrow> bool" where
  "digit c \<longleftrightarrow> 48 \<le> c \<and> c \<le> 57"

definition canon :: "nat \<Rightarrow> nat" where
  "canon c = (if 97 \<le> c \<and> c \<le> 122 then c - 32 else c)"

fun ci_prefix :: "jsstring \<Rightarrow> jsstring \<Rightarrow> bool" where
  "ci_prefix [] s = True"
| "ci_prefix (p # ps) [] = False"
| "ci_prefix (p # ps) (c # cs) = (canon c = canon p \<and> ci_prefix ps cs)"

fun ci_contains :: "jsstring \<Rightarrow> jsstring \<Rightarrow> bool" where
  "ci_contains pat [] = ci_prefix pat []"
| "ci_contains pat (c # cs) = (ci_prefix pat (c # cs) \<or> ci_contains pat cs)"

definition usernamePatterns :: "(jsstring \<Rightarrow> bool) list" where
  "usernamePatterns =
     [\<lambda>name. takeWhile letter name \<noteq> [] \<and> length (dropWhile letter name) \<ge> 4
               \<and> list_all digit (dropWhile letter name),
      \<lambda>name. ci_prefix (str ''user'') name \<and> drop 4 name \<noteq> [] \<and> list_all digit (drop 4 name),
      \<lambda>name. 1 \<le> length (takeWhile letter name) \<and> length (takeWhile letter name) \<le> 3
               \<and> length (dropWhile letter name) \<ge> 8 \<and> list_all digit (dropWhile letter name),
      ci_contains (str ''discord.gg''),
      ci_contains (str ''nitro''),
      ci_contains (str ''free'')]"

subsection \<open>analyzeUser\<close>

record user_analysis =
  riskLevel :: string
  riskScore :: int
  flags :: "string list"
  recommendations :: "string list"

record tracked_account =
  accountAge :: real
  trackedRiskScore :: int
  trackedRiskLevel :: string
  analyzedAt :: int

text \<open>One join of the window: \<open>{ userId, timestamp, riskScore, accountAge }\<close>.\<close>

record join_sample =
  joinUserId :: nat
  joinTimestamp :: int
  joinRiskScore :: int
  joinAccountAge :: int

record raid_data =
  recentJoins :: "join_sample list"
  suspiciousJoins :: nat
  lastRaidAlert :: int

text \<open>
  The state of the module read or written by \<open>analyzeUser\<close> and \<open>detectRaid\<close>: the raid
  data of every guild and the table of analysed accounts.
\<close>

record security_state =
  raidDetection :: "string \<rightharpoonup> raid_data"
  accountAgeTracker :: "nat \<rightharpoonup> tracked_account"

definition new_SecurityModule :: security_state where
  "new_SecurityModule = \<lparr>raidDetection = Map.empty, accountAgeTracker = Map.empty\<rparr>"

text \<open>
  The creation time read from the id is \<open>(id >> 22) + 1420070400000\<close>; beyond the range
  of \<open>Date\<close> (8.64e15 ms) its time value is \<open>NaN\<close> and the comparison is false. One clock
  reading \<open>now\<close> stands for the readings of \<open>Date.now()\<close> during one call.
\<close>

definition analyzeUser :: "security_state \<Rightarrow> int \<Rightarrow> user \<Rightarrow> user_analysis \<times> security_state" where
  "analyzeUser s now u =
     (let a = \<lparr>riskLevel = ''low'', riskScore = 0, flags = [], recommendations = []\<rparr>;
          accountAge = now - createdTimestamp u;
          accountAgeHours = real_of_int accountAge / (1000 * 60 * 60);
          a = (if accountAgeHours < 1
               then a\<lparr>riskScore := riskScore a + 40,
                      flags := flags a @ [''Very new account (< 1 hour)''],
                      recommendations := recommendations a @ [''Monitor closely for spam/raid activity'']\<rparr>
               else if accountAgeHours < 24
               then a\<lparr>riskScore := riskScore a + 25,
                      flags := flags a @ [''New account (< 24 hours)''],
                      recommendations := recommendations a @ [''Watch for suspicious behavior'']\<rparr>
               else if accountAgeHours < 168
               then a\<lparr>riskScore := riskScore a + 10,
                      flags := flags a @ [''Recent account (< 1 week)'']\<rparr>
               else a);
          a = (if list_ex (\<lambda>pattern. pattern (username u)) usernamePatterns
               then a\<lparr>riskScore := riskScore a + 15,
                      flags := flags a @ [''Suspicious username pattern'']\<rparr>
               else a);
          a = (if avatar u = None \<or> avatar u = Some []
               then a\<lparr>riskScore := riskScore a + 10, flags := flags a @ [''Default avatar'']\<rparr>
               else a);
          a = (if discriminator u = ''0'' then a\<lparr>riskScore := riskScore a - 5\<rparr> else a);
          userCreationTime = int (user_id u div 2 ^ 22) + 1420070400000;
          a = (if userCreationTime \<le> 8640000000000000
                  \<and> \<bar>userCreationTime - createdTimestamp u\<bar> > 60000
               then a\<lparr>riskScore := riskScore a + 20, flags := flags a @ [''ID timestamp mismatch'']\<rparr>
               else a);
          a = (if riskScore a \<ge> 70 then a\<lparr>riskLevel := ''critical''\<rparr>
               else if riskScore a \<ge> 50 then a\<lparr>riskLevel := ''high''\<rparr>
               else if riskScore a \<ge> 25 then a\<lparr>riskLevel := ''medium''\<rparr>
               else a)
      in (a, s\<lparr>accountAgeTracker := (accountAgeTracker s)(user_id u \<mapsto>
                  \<lparr>accountAge = accountAgeHours, trackedRiskScore = riskScore a,
                   trackedRiskLevel = riskLevel a, analyzedAt = now\<rparr>)\<rparr>))"

subsection \<open>detectRaid\<close>

record raid_analysis =
  isRaid :: bool
  confidence :: int
  joinCount :: nat
  suspiciousCount :: nat
  averageRisk :: real
  recommendations :: "string list"

text \<open>
  \<open>window\<close> is \<open>raidData.recentJoins\<close> after the pruning to ten minutes and the push of the
  current join; \<open>evaluateWindow\<close> is the analysis of the window against the configured
  \<open>raidProtection.joinThreshold\<close>, up to the declaration of the raid. The products
  \<open>joinCount * 0.6\<close> and \<open>joinCount * 0.7\<close> and the mean are doubles in the source and reals
  here; the comparisons are between an integer count and the product.
\<close>

definition window :: "security_state \<Rightarrow> string \<Rightarrow> user \<Rightarrow> int \<Rightarrow> join_sample list" where
  "window s guildId u now =
     (let raidData = (case raidDetection s guildId of
                        None \<Rightarrow> \<lparr>recentJoins = [], suspiciousJoins = 0, lastRaidAlert = 0\<rparr>
                      | Some d \<Rightarrow> d);
          tenMinutesAgo = now - (10 * 60 * 1000);
          userAnalysis = fst (analyzeUser s now u)
      in filter (\<lambda>j. joinTimestamp j > tenMinutesAgo) (recentJoins raidData) @
           [\<lparr>joinUserId = user_id u, joinTimestamp = now,
             joinRiskScore = riskScore userAnalysis,
             joinAccountAge = now - createdTimestamp u\<rparr>])"

definition evaluateWindow :: "int \<Rightarrow> join_sample list \<Rightarrow> raid_analysis" where
  "evaluateWindow joinThreshold joins =
     (let a = \<lparr>isRaid = False, confidence = 0, joinCount = length joins, suspiciousCount = 0,
               averageRisk = 0, recommendations = []\<rparr>;
          a = a\<lparr>suspiciousCount := length (filter (\<lambda>j. joinRiskScore j > 30) joins)\<rparr>;
          a = a\<lparr>averageRisk := real_of_int (sum_list (map joinRiskScore joins)) / real (length joins)\<rparr>;
          a = (if int (joinCount a) \<ge> joinThreshold
               then
                 (let a = a\<lparr>confidence := confidence a + 30\<rparr>;
                      a = (if real (suspiciousCount a) \<ge> real (joinCount a) * 0.6
                           then a\<lparr>confidence := confidence a + 40,
                                  recommendations := recommendations a @ [''Enable verification requirements'']\<rparr>
                           else a);
                      a = (if averageRisk a > 40
                           then a\<lparr>confidence := confidence a + 30,
                                  recommendations := recommendations a @
                                    [''Temporarily restrict new member permissions'']\<rparr>
                           else a);
                      newAccountCount = length (filter (\<lambda>j. joinAccountAge j < 86400000) joins);
                      a = (if real newAccountCount \<ge> real (joinCount a) * 0.7
                           then a\<lparr>confidence := confidence a + 35,
                                  recommendations := recommendations a @
                                    [''Implement account age requirements'']\<rparr>
                           else a)
                  in a)
               else a)
      in if confidence a \<ge> 60
         then a\<lparr>isRaid := True,
                recommendations := recommendations a @ [''Consider enabling server lockdown'']\<rparr>
         else a)"

definition detectRaid ::
  "int \<Rightarrow> security_state \<Rightarrow> string \<Rightarrow> user \<Rightarrow> int \<Rightarrow> raid_analysis \<times> security_state" where
  "detectRaid joinThreshold s guildId u now =
     (let raidData = (case raidDetection s guildId of
                        None \<Rightarrow> \<lparr>recentJoins = [], suspiciousJoins = 0, lastRaidAlert = 0\<rparr>
                      | Some d \<Rightarrow> d);
          s1 = snd (analyzeUser s now u);
          raidData = raidData\<lparr>recentJoins := window s guildId u now\<rparr>;
          a = evaluateWindow joinThreshold (recentJoins raidData);
          raidData = (if isRaid a \<and> now - lastRaidAlert raidData > 300000
                      then raidData\<lparr>lastRaidAlert := now\<rparr> else raidData)
      in (a, s1\<lparr>raidDetection := (raidDetection s1)(guildId \<mapsto> raidData)\<rparr>))"

text \<open>Members joining one guild, each with the clock reading of its join, in order.\<close>

fun joinAll :: "int \<Rightarrow> security_state \<Rightarrow> string \<Rightarrow> (user \<times> int) list \<Rightarrow> security_state" where
  "joinAll joinThreshold s guildId [] = s"
| "joinAll joinThreshold s guildId ((u, now) # rest) =
     joinAll joinThreshold (snd (detectRaid joinThreshold s guildId u now)) guildId rest"

text \<open>
  An established account: created long before the joins, with an avatar, a plain name and
  an id that encodes its creation time. Five of them make the window of the example.
\<close>

definition established :: "nat \<Rightarrow> user" where
  "established k =
     \<lparr>user_id = (1000 + k) * 2 ^ 22, username = str ''alice'', avatar = Some ''a1b2'',
      discriminator = ''1234'', createdTimestamp = 1420070400000 + 1000 + int k\<rparr>"

text \<open>An account created one minute before it joins, without an avatar.\<close>

definition newcomer :: user where
  "newcomer =
     \<lparr>user_id = 1000 * 2 ^ 22, username = str ''bob'', avatar = None,
      discriminator = ''1234'', createdTimestamp = 1420070400000 + 1000\<rparr>"

text \<open>
  The three risk signals of a window, and the confidence that the signals and the join
  count add up to when the bonuses of the signals are counted only once the join count
  has reached the threshold.
\<close>

definition riskySignal :: "join_sample list \<Rightarrow> bool" where
  "riskySignal w \<longleftrightarrow>
     real (length (filter (\<lambda>j. joinRiskScore j > 30) w)) \<ge> real (length w) * 0.6"

definition meanRiskSignal :: "join_sample list \<Rightarrow> bool" where
  "meanRiskSignal w \<longleftrightarrow> real_of_int (sum_list (map joinRiskScore w)) / real (length w) > 40"

definition newAccountSignal :: "join_sample list \<Rightarrow> bool" where
  "newAccountSignal w \<longleftrightarrow>
     real (length (filter (\<lambda>j. joinAccountAge j < 86400000) w)) \<ge> real (length w) * 0.7"

definition window_confidence :: "int \<Rightarrow> join_sample list \<Rightarrow> int" where
  "window_confidence thr w =
     (if int (length w) \<ge> thr
      then 30 + (if riskySignal w then 40 else 0) + (if meanRiskSignal w then 30 else 0)
              + (if newAccountSignal w then 35 else 0)
      else 0)"

text \<open>The confidence of the claim as it reads: every bonus on its own condition.\<close>

definition independent_confidence :: "int \<Rightarrow> join_sample list \<Rightarrow> int" where
  "independent_confidence thr w =
       (if int (length w) \<ge> thr then 30 else 0) + (if riskySignal w then 40 else 0)
     + (if meanRiskSignal w then 30 else 0) + (if newAccountSignal w then 35 else 0)"

section \<open>Raid protection: the join rate\<close>

text \<open>
  The class \<open>RaidProtection\<close> tracks the joins of every guild. Its own configuration holds
  the defaults; the configuration of the guild may leave a value out (\<open>None\<close>), and
  \<open>a || b\<close> falls back to the default when the value is missing or 0.
\<close>

record rp_config =
  defaultJoinThreshold :: int
  defaultTimeWindow :: int
  accountAgeThreshold :: int

record guild_raid_config =
  enabled :: bool
  timeWindow :: "int option"
  joinThreshold :: "int option"

definition js_or :: "int option \<Rightarrow> int \<Rightarrow> int" where
  "js_or a b = (case a of None \<Rightarrow> b | Some v \<Rightarrow> if v = 0 then b else v)"

record tracked_join =
  joinedUserId :: nat
  username :: jsstring
  discriminator :: string
  accountCreated :: int
  joinedAt :: int
  avatar :: "string option"
  suspicious :: bool

record guild_data =
  joins :: "tracked_join list"
  lastRaidCheck :: int
  raidActive :: bool
  raidStarted :: "int option"

text \<open>The indicators are template strings; each constructor carries the numbers printed.\<close>

datatype indicator =
    JoinsInWindow nat int
  | SuspiciousAccounts nat
  | SimilarUsernames
  | NewAccounts nat

record raid_check =
  isRaid :: bool
  raidScore :: int
  indicators :: "indicator list"
  recentJoins :: nat
  suspiciousJoins :: nat
  timeWindow :: int

definition checkRaidConditions :: "rp_config \<Rightarrow> guild_raid_config \<Rightarrow> guild_data \<Rightarrow> int \<Rightarrow> raid_check" where
  "checkRaidConditions config guildConfig guildData now =
     (let timeWindow = js_or (guild_raid_config.timeWindow guildConfig) (defaultTimeWindow config);
          joinThreshold = js_or (joinThreshold guildConfig) (defaultJoinThreshold config);
          recentJoins = filter (\<lambda>j. now - joinedAt j < timeWindow) (joins guildData);
          isRaid = (int (length recentJoins) \<ge> joinThreshold);
          raidScore = 0;
          indicators = [];
          raidScore = (if isRaid then raidScore + 50 else raidScore);
          indicators = (if isRaid then indicators @ [JoinsInWindow (length recentJoins) timeWindow]
                        else indicators);
          suspiciousJoins = filter suspicious recentJoins;
          raidScore = (if length suspiciousJoins \<ge> 2 then raidScore + 30 else raidScore);
          indicators = (if length suspiciousJoins \<ge> 2
                        then indicators @ [SuspiciousAccounts (length suspiciousJoins)]
                        else indicators);
          uniqueUsernames = set (map tracked_join.username recentJoins);
          raidScore = (if int (length recentJoins) - int (card uniqueUsernames) \<ge> 2
                       then raidScore + 25 else raidScore);
          indicators = (if int (length recentJoins) - int (card uniqueUsernames) \<ge> 2
                        then indicators @ [SimilarUsernames] else indicators);
          newAccounts = filter (\<lambda>j. now - accountCreated j < accountAgeThreshold config) recentJoins;
          raidScore = (if length newAccounts \<ge> 3 then raidScore + 20 else raidScore);
          indicators = (if length newAccounts \<ge> 3
                        then indicators @ [NewAccounts (length newAccounts)] else indicators)
      in \<lparr>isRaid = isRaid, raidScore = raidScore, indicators = indicators,
          recentJoins = length recentJoins, suspiciousJoins = length suspiciousJoins,
          timeWindow = timeWindow\<rparr>)"

text \<open>
  \<open>monitorJoin\<close>, as far as the tracker and the raid check go: nothing happens when the
  protection is disabled; otherwise the join is pushed, the joins outside the time window
  are dropped, the raid conditions are checked, and a raid that is detected while none is
  active marks the guild (\<open>handleRaidDetection\<close>). The analysis of the single join and
  the actions against the platform neither read nor write the result of the check. One
  clock reading stands for the readings during the call.
\<close>

definition monitorJoin ::
  "rp_config \<Rightarrow> guild_raid_config \<Rightarrow> (string \<rightharpoonup> guild_data) \<Rightarrow> string \<Rightarrow> user \<Rightarrow> int
     \<Rightarrow> raid_check option \<times> (string \<rightharpoonup> guild_data)" where
  "monitorJoin config guildConfig joinTracker guildId u now =
     (if \<not> enabled guildConfig then (None, joinTracker)
      else
        (let guildData = (case joinTracker guildId of
                            None \<Rightarrow> \<lparr>joins = [], lastRaidCheck = now, raidActive = False,
                                      raidStarted = None\<rparr>
                          | Some d \<Rightarrow> d);
             guildData = guildData\<lparr>joins := joins guildData @
                           [\<lparr>joinedUserId = user_id u, username = user.username u,
                             discriminator = user.discriminator u,
                             accountCreated = createdTimestamp u, joinedAt = now,
                             avatar = user.avatar u, suspicious = False\<rparr>]\<rparr>;
             timeWindow = js_or (guild_raid_config.timeWindow guildConfig) (defaultTimeWindow config);
             guildData = guildData\<lparr>joins := filter (\<lambda>j. now - joinedAt j < timeWindow) (joins guildData)\<rparr>;
             raidCheck = checkRaidConditions config guildConfig guildData now;
             guildData = (if raid_check.isRaid raidCheck \<and> \<not> raidActive guildData
                          then guildData\<lparr>raidActive := True, raidStarted := Some now\<rparr>
                          else guildData)
         in (Some raidCheck, joinTracker(guildId \<mapsto> guildData))))"

text \<open>Members joining one guild, each with the clock reading of its join, in order.\<close>

fun monitorAll ::
  "rp_config \<Rightarrow> guild_raid_config \<Rightarrow> (string \<rightharpoonup> guild_data) \<Rightarrow> string \<Rightarrow> (user \<times> int) list
     \<Rightarrow> (string \<rightharpoonup> guild_data)" where
  "monitorAll config guildConfig joinTracker guildId [] = joinTracker"
| "monitorAll config guildConfig joinTracker guildId ((u, now) # rest) =
     monitorAll config guildConfig (snd (monitorJoin config guildConfig joinTracker guildId u now))
       guildId rest"

definition default_rp_config :: rp_config where
  "default_rp_config =
     \<lparr>defaultJoinThreshold = 5, defaultTimeWindow = 60000,
      accountAgeThreshold = 7 * 24 * 60 * 60 * 1000\<rparr>"

text \<open>A guild with the protection enabled, a time window of one minute and \<open>joinThreshold = 5\<close>.\<close>

definition guild5 :: guild_raid_config where
  "guild5 = \<lparr>enabled = True, timeWindow = Some 60000, joinThreshold = Some 5\<rparr>"

text \<open>The joins tracked for a guild (none when the guild is not tracked).\<close>

definition tracked :: "(string \<rightharpoonup> guild_data) \<Rightarrow> string \<Rightarrow> tracked_join list" where
  "tracked joinTracker guildId = (case joinTracker guildId of None \<Rightarrow> [] | Some d \<Rightarrow> joins d)"

section \<open>Content filter: the compiled patterns\<close>

text \<open>
  The content filter reads texts of code units below 256 (ASCII and Latin-1), which holds
  every word of the built-in lists; a text is a \<open>string\<close>. \<open>toLowerCase\<close> maps
  \<open>A-Z\<close> and the capital letters U+00C0 to U+00DE (but the sign U+00D7) to their small
  letters and leaves the other code units of the range unchanged. \<open>trim\<close> removes
  white space and line terminators at both ends.
\<close>

definition toLowerCase_char :: "char \<Rightarrow> char" where
  "toLowerCase_char c =
     (let n = (of_char c :: nat) in
      if (65 \<le> n \<and> n \<le> 90) \<or> (192 \<le> n \<and> n \<le> 222 \<and> n \<noteq> 215) then char_of (n + 32) else c)"

definition toLowerCase :: "string \<Rightarrow> string" where
  "toLowerCase s = map toLowerCase_char s"

definition white :: "char \<Rightarrow> bool" where
  "white c \<longleftrightarrow> (of_char c :: nat) \<in> {9, 10, 11, 12, 13, 32, 160}"

definition trim :: "string \<Rightarrow> string" where
  "trim s = rev (dropWhile white (rev (dropWhile white s)))"

subsection \<open>Building the pattern sources\<close>

text \<open>
  \<open>word.replace(/[.*+?^${}()|[\]\\]/g, '\\$&')\<close> puts a backslash before every syntax
  character. The five substitutions are applied one after the other, each to the result
  of the one before, each to every occurrence, in either case of the letter. In a
  replacement text \<open>$5\<close> stands for itself, since the patterns have no capture group.
\<close>

abbreviation backslash :: char where
  "backslash \<equiv> CHR 0x5C"

definition syntaxCharacter :: "char \<Rightarrow> bool" where
  "syntaxCharacter c \<longleftrightarrow> c \<in> set (''.*+?^${}()|[]'' @ [backslash])"

definition escapeRegex :: "string \<Rightarrow> string" where
  "escapeRegex w = concat (map (\<lambda>c. if syntaxCharacter c then [backslash, c] else [c]) w)"

definition replaceAll :: "(char \<Rightarrow> bool) \<Rightarrow> string \<Rightarrow> string \<Rightarrow> string" where
  "replaceAll p by s = concat (map (\<lambda>c. if p c then by else [c]) s)"

definition evasionSource :: "string \<Rightarrow> string" where
  "evasionSource escapedWord =
     replaceAll (\<lambda>c. c \<in> set ''iI'') ''[i1!|]''
       (replaceAll (\<lambda>c. c \<in> set ''oO'') ''[o0@]''
         (replaceAll (\<lambda>c. c \<in> set ''lL'') ''[l1!|]''
           (replaceAll (\<lambda>c. c \<in> set ''sS'') ''[s$5z]''
             (replaceAll (\<lambda>c. c \<in> set ''aeiouAEIOU'') ''[aeiou@3!0]'' escapedWord))))"

subsection \<open>Reading a pattern source\<close>

text \<open>
  \<open>new RegExp(source, 'gi')\<close>. The sources built above use a fragment of the pattern
  syntax: a word boundary \<open>\b\<close>, an escaped syntax character, a class of plain characters
  \<open>[...]\<close> that ends at the first \<open>]\<close>, and plain characters, among them a \<open>]\<close> outside a
  class. \<open>parseRegex\<close> reads this fragment and returns \<open>None\<close> on anything else (another
  escape, a range or negation in a class, an operator, a class that is not closed).
\<close>

datatype item = Lit char | Cls "char list" | WordB

fun readClass :: "string \<Rightarrow> (char list \<times> string) option" where
  "readClass [] = None"
| "readClass (c # rest) =
     (if c = CHR '']'' then Some ([], rest)
      else if c = backslash \<or> c = CHR ''-'' then None
      else (case readClass rest of
              None \<Rightarrow> None
            | Some (members, rest') \<Rightarrow> Some (c # members, rest')))"

lemma readClass_shorter: "readClass s = Some (members, rest) \<Longrightarrow> length rest < length s"
  by (induction s arbitrary: members rest) (auto split: if_splits option.splits)

function parseRegex :: "string \<Rightarrow> item list option" where
  "parseRegex [] = Some []"
| "parseRegex (c # rest) =
     (if c = backslash then
        (case rest of
           [] \<Rightarrow> None
         | e # rest' \<Rightarrow>
             if e = CHR ''b'' then map_option (\<lambda>is. WordB # is) (parseRegex rest')
             else if syntaxCharacter e then map_option (\<lambda>is. Lit e # is) (parseRegex rest')
             else None)
      else if c = CHR ''['' then
        (if take 1 rest = ''^'' then None
         else (case readClass rest of
                 None \<Rightarrow> None
               | Some (members, rest') \<Rightarrow> map_option (\<lambda>is. Cls members # is) (parseRegex rest')))
      else if c \<in> set ''.*+?^${}()|'' then None
      else map_option (\<lambda>is. Lit c # is) (parseRegex rest))"
  by pat_completeness auto
termination
  by (relation "measure length") (auto dest: readClass_shorter simp del: readClass.simps)

subsection \<open>Matching\<close>

text \<open>
  With the flag \<open>i\<close> and without the flag \<open>u\<close> two code units match when their
  canonical forms are equal: the upper case of the code unit when that is a single code
  unit, except that a code unit from 128 on is never mapped below 128. On the Latin-1 range:
  the small letters map to their capitals, U+00FF to U+0178, U+00B5 to U+039C, and U+00DF
  (whose upper case is two letters) to itself. A word character is one of \<open>[A-Za-z0-9_]\<close>.
\<close>

definition canonicalize :: "char \<Rightarrow> nat" where
  "canonicalize c =
     (let n = (of_char c :: nat) in
      if (97 \<le> n \<and> n \<le> 122) \<or> (224 \<le> n \<and> n \<le> 254 \<and> n \<noteq> 247) then n - 32
      else if n = 255 then 376
      else if n = 181 then 924
      else n)"

definition wordChar :: "char option \<Rightarrow> bool" where
  "wordChar co =
     (case co of
        None \<Rightarrow> False
      | Some c \<Rightarrow> (let n = (of_char c :: nat) in
                    (48 \<le> n \<and> n \<le> 57) \<or> (65 \<le> n \<and> n \<le> 90) \<or> (97 \<le> n \<and> n \<le> 122) \<or> n = 95))"

text \<open>
  \<open>matchAt items prev s\<close>: the items match at the start of \<open>s\<close>, where \<open>prev\<close> is the
  character before it; the result is the number of characters matched. Every item takes
  one character or none, so there is no choice to backtrack over.
\<close>

fun matchAt :: "item list \<Rightarrow> char option \<Rightarrow> string \<Rightarrow> nat option" where
  "matchAt [] prev s = Some 0"
| "matchAt (WordB # items) prev s =
     (if wordChar prev \<noteq> wordChar (case s of [] \<Rightarrow> None | x # xs \<Rightarrow> Some x)
      then matchAt items prev s else None)"
| "matchAt (Lit c # items) prev [] = None"
| "matchAt (Lit c # items) prev (x # xs) =
     (if canonicalize x = canonicalize c then map_option Suc (matchAt items (Some x) xs) else None)"
| "matchAt (Cls cs # items) prev [] = None"
| "matchAt (Cls cs # items) prev (x # xs) =
     (if canonicalize x \<in> canonicalize ` set cs
      then map_option Suc (matchAt items (Some x) xs) else None)"

text \<open>
  \<open>text.match(pattern)\<close> with the flag \<open>g\<close>: the matches from left to right, each search
  starting where the match before ended, one position further after an empty match.
  \<open>countMatches\<close> is the length of the array, 0 standing for \<open>null\<close>.
\<close>

function matchesFrom :: "item list \<Rightarrow> char option \<Rightarrow> string \<Rightarrow> nat" where
  "matchesFrom items prev [] = (if matchAt items prev [] = None then 0 else 1)"
| "matchesFrom items prev (x # xs) =
     (case matchAt items prev (x # xs) of
        None \<Rightarrow> matchesFrom items (Some x) xs
      | Some 0 \<Rightarrow> 1 + matchesFrom items (Some x) xs
      | Some (Suc n) \<Rightarrow> 1 + matchesFrom items (Some ((x # xs) ! n)) (drop n xs))"
  by pat_completeness auto
termination
  by (relation "measure (\<lambda>(items, prev, s). length s)") auto

definition countMatches :: "item list \<Rightarrow> string \<Rightarrow> nat" where
  "countMatches items s = matchesFrom items None s"

section \<open>Content filter: the analysis\<close>

subsection \<open>Word lists and severities\<close>

definition profanityLists :: "(string \<times> string list) list" where
  "profanityLists =
     [(''english'',
        [''damn'', ''hell'', ''crap'', ''stupid'', ''idiot'', ''moron'', ''dumb'',
         ''shit'', ''piss'', ''ass'', ''bitch'', ''bastard'', ''whore'', ''slut'',
         ''fuck'', ''fucking'', ''fucked'', ''fucker'', ''motherfucker'',
         ''cunt'', ''cock'', ''dick'', ''pussy'', ''tits'', ''boobs'',
         ''nigger'', ''nigga'', ''faggot'', ''retard'', ''spic'', ''chink'',
         ''kike'', ''wetback'', ''towelhead'', ''raghead'']),
      (''spanish'',
        [''mierda'', ''joder'', ''co'' @ [char_of (241 :: nat)] @ ''o'', ''puta'', ''hijo de puta'',
         ''cabr'' @ [char_of (243 :: nat)] @ ''n'', ''pendejo'', ''maric'' @ [char_of (243 :: nat)] @ ''n'',
         ''gilipollas'', ''imb'' @ [char_of (233 :: nat)] @ ''cil'']),
      (''french'',
        [''merde'', ''putain'', ''connard'', ''salope'', ''encul'' @ [char_of (233 :: nat)],
         ''fils de pute'', ''con'', ''bite'', ''chatte'', ''bordel'']),
      (''german'',
        [''schei'' @ [char_of (223 :: nat)] @ ''e'', ''fick'', ''arsch'', ''fotze'', ''hurensohn'',
         ''wichser'', ''schwanz'', ''muschi'', ''verdammt'']),
      (''portuguese'',
        [''merda'', ''caralho'', ''porra'', ''filho da puta'', ''puta'', ''cu'',
         ''buceta'', ''cacete'', ''desgra'' @ [char_of (231 :: nat)] @ ''a''])]"

definition getWordSeverity :: "string \<Rightarrow> nat" where
  "getWordSeverity w =
     (let lowerWord = toLowerCase w in
      if lowerWord \<in> set [''nigger'', ''nigga'', ''faggot'', ''retard'', ''spic'', ''chink'',
                            ''kike'', ''wetback'', ''towelhead'', ''raghead''] then 4
      else if lowerWord \<in> set [''fuck'', ''fucking'', ''fucked'', ''fucker'', ''motherfucker'',
                                 ''cunt'', ''cock'', ''dick'', ''pussy'', ''tits'', ''boobs''] then 3
      else if lowerWord \<in> set [''shit'', ''piss'', ''ass'', ''bitch'', ''bastard'', ''whore'', ''slut'']
      then 2
      else 1)"

subsection \<open>The filter object\<close>

record filter_config =
  enabled :: bool
  strictMode :: bool
  customWords :: "string list"
  whitelist :: "string list"
  allowedFileTypes :: "string list"
  maxFileSize :: int

definition default_filter_config :: filter_config where
  "default_filter_config =
     \<lparr>enabled = True, strictMode = False, customWords = [], whitelist = [],
      allowedFileTypes = [''jpg'', ''jpeg'', ''png'', ''gif'', ''webp'', ''mp4'', ''mov'', ''avi'',
                          ''pdf'', ''txt'', ''doc'', ''docx'', ''zip'', ''rar''],
      maxFileSize = 50 * 1024 * 1024\<rparr>"

text \<open>
  The compiled patterns: for every language the patterns of its words, each kept with its
  word, and the patterns of the custom words when there is a custom word. A source that
  cannot be read is the exception of \<open>new RegExp\<close>, here \<open>None\<close>.
\<close>

record compiled =
  languages :: "(string \<times> (item list \<times> string) list) list"
  custom :: "(item list \<times> string) list option"

definition compileWord :: "string \<Rightarrow> (item list \<times> string) option" where
  "compileWord w =
     map_option (\<lambda>p. (p, w)) (parseRegex ([backslash, CHR ''b''] @ evasionSource (escapeRegex w) @ [backslash, CHR ''b'']))"

definition compileCustomWord :: "string \<Rightarrow> (item list \<times> string) option" where
  "compileCustomWord w = map_option (\<lambda>p. (p, w)) (parseRegex ([backslash, CHR ''b''] @ escapeRegex w @ [backslash, CHR ''b'']))"

definition compileBuiltin :: "(string \<times> (item list \<times> string) list) list option" where
  "compileBuiltin =
     those (map (\<lambda>(language, ws). map_option (\<lambda>ps. (language, ps)) (those (map compileWord ws)))
              profanityLists)"

definition compilePatterns :: "filter_config \<Rightarrow> compiled option" where
  "compilePatterns cfg =
     (case compileBuiltin of
        None \<Rightarrow> None
      | Some ls \<Rightarrow>
          if length (customWords cfg) > 0
          then (case those (map compileCustomWord (customWords cfg)) of
                  None \<Rightarrow> None
                | Some cs \<Rightarrow> Some \<lparr>languages = ls, custom = Some cs\<rparr>)
          else Some \<lparr>languages = ls, custom = None\<rparr>)"

datatype detection =
    Profanity string string nat nat
  | CustomWord string nat nat
  | ForbiddenFileType string string nat
  | FileTooLarge string int int nat
  | SuspiciousFilename string string nat

record filter_analysis =
  filtered :: bool
  severity :: nat
  detections :: "detection list"
  confidence :: int

record text_analysis = filter_analysis +
  language :: string

record content_analysis = text_analysis +
  action :: action
  reason :: "string option"

text \<open>A result of \<open>analyzeContent\<close>: the object returned while the filter is disabled, or an analysis.\<close>

datatype content_result = Disabled | Analysed content_analysis

record content_filter =
  config :: filter_config
  compiledPatterns :: compiled
  detectionCache :: "string \<times> nat \<rightharpoonup> content_analysis \<times> int"

definition new_ContentFilter :: "filter_config \<Rightarrow> content_filter option" where
  "new_ContentFilter cfg =
     map_option (\<lambda>c. \<lparr>config = cfg, compiledPatterns = c, detectionCache = Map.empty\<rparr>)
       (compilePatterns cfg)"

subsection \<open>analyzeText\<close>

text \<open>
  The inner loop over the patterns of one language stops at the first detection in strict
  mode; the outer loop over the languages stops once something is filtered in strict mode;
  the loop over the custom patterns runs in every mode.
\<close>

fun scanLanguage :: "bool \<Rightarrow> string \<Rightarrow> string \<Rightarrow> (item list \<times> string) list \<Rightarrow> text_analysis \<Rightarrow> text_analysis" where
  "scanLanguage strict lang normalizedContent [] a = a"
| "scanLanguage strict lang normalizedContent ((pattern, originalWord) # rest) a =
     (let matches = countMatches pattern normalizedContent in
      if matches > 0
      then (let sev = getWordSeverity originalWord;
                a = a\<lparr>filtered := True, language := lang,
                      severity := max (severity a) sev,
                      confidence := confidence a + 20 * int matches,
                      detections := detections a @ [Profanity lang originalWord matches sev]\<rparr>
            in if strict then a else scanLanguage strict lang normalizedContent rest a)
      else scanLanguage strict lang normalizedContent rest a)"

fun scanLanguages :: "bool \<Rightarrow> string \<Rightarrow> (string \<times> (item list \<times> string) list) list \<Rightarrow> text_analysis \<Rightarrow> text_analysis" where
  "scanLanguages strict normalizedContent [] a = a"
| "scanLanguages strict normalizedContent ((lang, patterns) # rest) a =
     (let a = scanLanguage strict lang normalizedContent patterns a in
      if filtered a \<and> strict then a else scanLanguages strict normalizedContent rest a)"

fun scanCustom :: "string \<Rightarrow> (item list \<times> string) list \<Rightarrow> text_analysis \<Rightarrow> text_analysis" where
  "scanCustom normalizedContent [] a = a"
| "scanCustom normalizedContent ((pattern, customWord) # rest) a =
     (let matches = countMatches pattern normalizedContent in
      if matches > 0
      then scanCustom normalizedContent rest
             (a\<lparr>filtered := True, language := ''custom'',
                severity := max (severity a) 2,
                confidence := confidence a + 25 * int matches,
                detections := detections a @ [CustomWord customWord matches 2]\<rparr>)
      else scanCustom normalizedContent rest a)"

definition no_detection :: text_analysis where
  "no_detection =
     \<lparr>filtered = False, severity = 0, detections = [], confidence = 0, language = ''unknown''\<rparr>"

definition analyzeText :: "content_filter \<Rightarrow> string \<Rightarrow> text_analysis" where
  "analyzeText cf cnt =
     (let a = no_detection
      in if cnt = [] \<or> length (trim cnt) = 0 then a
         else
           (let normalizedContent = trim (toLowerCase cnt);
                a = scanLanguages (strictMode (config cf)) normalizedContent
                      (languages (compiledPatterns cf)) a
            in case custom (compiledPatterns cf) of
                 None \<Rightarrow> a
               | Some patterns \<Rightarrow> scanCustom normalizedContent patterns a))"

subsection \<open>Attachments\<close>

text \<open>An attachment: \<open>attachment.name\<close> and \<open>attachment.size\<close>.\<close>

record attachment =
  attachmentName :: string
  attachmentSize :: int

fun startsWith :: "string \<Rightarrow> string \<Rightarrow> bool" where
  "startsWith s [] = True"
| "startsWith [] (k # ks) = False"
| "startsWith (c # cs) (k # ks) = (c = k \<and> startsWith cs ks)"

fun stringIncludes :: "string \<Rightarrow> string \<Rightarrow> bool" where
  "stringIncludes [] k = (k = [])"
| "stringIncludes (c # cs) k = (startsWith (c # cs) k \<or> stringIncludes cs k)"

text \<open>\<open>lastIndexOf('.')\<close> and the substring after it: the characters after the last dot.\<close>

definition getFileExtension :: "string \<Rightarrow> string" where
  "getFileExtension fileName =
     (if CHR ''.'' \<notin> set fileName then ''''
      else toLowerCase (rev (takeWhile (\<lambda>c. c \<noteq> CHR ''.'') (rev fileName))))"

definition isAllowedFileType :: "filter_config \<Rightarrow> string \<Rightarrow> bool" where
  "isAllowedFileType cfg extension \<longleftrightarrow> toLowerCase extension \<in> set (allowedFileTypes cfg)"

record name_check =
  nameSuspicious :: bool
  nameSeverity :: nat
  nameConfidence :: int
  nameReason :: string

definition checkSuspiciousFileName :: "string \<Rightarrow> name_check" where
  "checkSuspiciousFileName fileName =
     (let result = \<lparr>nameSuspicious = False, nameSeverity = 0, nameConfidence = 0, nameReason = ''''\<rparr>;
          lowerName = toLowerCase fileName;
          actualExtension = getFileExtension fileName;
          result = (if actualExtension \<in> set [''exe'', ''bat'', ''cmd'', ''scr'', ''com'', ''pif'', ''vbs'', ''js'']
                    then \<lparr>nameSuspicious = True, nameSeverity = 3, nameConfidence = 40,
                          nameReason = ''Executable file type''\<rparr>
                    else result);
          result = fold (\<lambda>keyword r.
                      if stringIncludes lowerName keyword
                      then \<lparr>nameSuspicious = True, nameSeverity = max (nameSeverity r) 2,
                            nameConfidence = nameConfidence r + 25,
                            nameReason = ''Contains suspicious keyword: '' @ keyword\<rparr>
                      else r)
                    [''virus'', ''malware'', ''trojan'', ''keylogger'', ''hack'', ''crack'',
                     ''keygen'', ''patch'', ''loader'', ''cheat'', ''bot'', ''rat'']
                    result
      in if length fileName > 200
         then \<lparr>nameSuspicious = True, nameSeverity = max (nameSeverity result) 2,
               nameConfidence = nameConfidence result + 20,
               nameReason = ''Extremely long filename''\<rparr>
         else result)"

definition analyzeAttachment :: "filter_config \<Rightarrow> attachment \<Rightarrow> filter_analysis \<Rightarrow> filter_analysis" where
  "analyzeAttachment cfg att a =
     (let fileExtension = getFileExtension (attachmentName att);
          a = (if \<not> isAllowedFileType cfg fileExtension
               then a\<lparr>filtered := True, severity := max (severity a) 2,
                      confidence := confidence a + 30,
                      detections := detections a @ [ForbiddenFileType (attachmentName att) fileExtension 2]\<rparr>
               else a);
          a = (if attachmentSize att > maxFileSize cfg
               then a\<lparr>filtered := True, severity := max (severity a) 1,
                      confidence := confidence a + 20,
                      detections := detections a @ [FileTooLarge (attachmentName att) (attachmentSize att) (maxFileSize cfg) 1]\<rparr>
               else a);
          suspiciousName = checkSuspiciousFileName (attachmentName att)
      in if nameSuspicious suspiciousName
         then a\<lparr>filtered := True, severity := max (severity a) (nameSeverity suspiciousName),
                confidence := confidence a + nameConfidence suspiciousName,
                detections := detections a @
                  [SuspiciousFilename (attachmentName att) (nameReason suspiciousName) (nameSeverity suspiciousName)]\<rparr>
         else a)"

definition analyzeAttachments :: "filter_config \<Rightarrow> attachment list \<Rightarrow> filter_analysis" where
  "analyzeAttachments cfg atts =
     fold (analyzeAttachment cfg) atts
       \<lparr>filtered = False, severity = 0, detections = [], confidence = 0\<rparr>"

subsection \<open>analyzeContent\<close>

text \<open>
  \<open>hashString\<close>: \<open>hash = ((hash << 5) - hash) + char; hash = hash & hash\<close> keeps the hash a
  32-bit integer; the result is the decimal text of its absolute value, here the number.
  The cache key \<open>`${userId}-${hash}`\<close> is the pair of the id and the number.
\<close>

definition hashString :: "string \<Rightarrow> nat" where
  "hashString s =
     nat \<bar>sint (fold (\<lambda>c hash. (push_bit 5 hash - hash) + of_nat (of_char c)) s (0 :: 32 word))\<bar>"

record message =
  content :: string
  authorId :: string
  authorTag :: string
  attachments :: "attachment list"

definition isWhitelisted :: "filter_config \<Rightarrow> message \<Rightarrow> bool" where
  "isWhitelisted cfg m \<longleftrightarrow> authorId m \<in> set (whitelist cfg) \<or> authorTag m \<in> set (whitelist cfg)"

definition determineAction_filter :: "nat \<Rightarrow> string \<Rightarrow> action" where
  "determineAction_filter sev userId =
     (let violationCount = (0 :: nat) in
      if sev \<ge> 4 \<or> violationCount \<ge> 5 then Ban
      else if sev \<ge> 3 \<or> violationCount \<ge> 3 then Kick
      else if sev \<ge> 2 \<or> violationCount \<ge> 2 then Timeout
      else if sev \<ge> 1 \<or> violationCount \<ge> 1 then Warn
      else Delete)"

definition cacheTimeout :: int where
  "cacheTimeout = 5 * 60 * 1000"

definition analyzeContent :: "content_filter \<Rightarrow> message \<Rightarrow> int \<Rightarrow> content_result \<times> content_filter" where
  "analyzeContent cf m now =
     (if \<not> enabled (config cf) then (Disabled, cf)
      else
        (let cacheKey = (authorId m, hashString (content m)) in
         case (case detectionCache cf cacheKey of
                 None \<Rightarrow> None
               | Some (result, t) \<Rightarrow> if now - t < cacheTimeout then Some result else None) of
           Some result \<Rightarrow> (Analysed result, cf)
         | None \<Rightarrow>
             (let a = \<lparr>filtered = False, severity = 0, detections = [], confidence = 0,
                       language = ''unknown'', action = ANone, reason = None\<rparr>
              in if isWhitelisted (config cf) m
                 then (Analysed (a\<lparr>reason := Some ''User whitelisted''\<rparr>), cf)
                 else
                   (let textAnalysis = analyzeText cf (content m);
                        a = (if filtered textAnalysis
                             then a\<lparr>filtered := True,
                                    severity := max (severity a) (severity textAnalysis),
                                    detections := detections a @ detections textAnalysis,
                                    confidence := confidence a + confidence textAnalysis,
                                    language := language textAnalysis\<rparr>
                             else a);
                        a = (if length (attachments m) > 0
                             then (let attachmentAnalysis = analyzeAttachments (config cf) (attachments m)
                                   in if filtered attachmentAnalysis
                                      then a\<lparr>filtered := True,
                                             severity := max (severity a) (severity attachmentAnalysis),
                                             detections := detections a @ detections attachmentAnalysis,
                                             confidence := confidence a + confidence attachmentAnalysis\<rparr>
                                      else a)
                             else a);
                        a = a\<lparr>action := determineAction_filter (severity a) (authorId m)\<rparr>;
                        a = a\<lparr>confidence := min (confidence a) 100\<rparr>
                    in (Analysed a, cf\<lparr>detectionCache := (detectionCache cf)(cacheKey \<mapsto> (a, now))\<rparr>)))))"

text \<open>The messages and configurations of the examples.\<close>

definition hello :: message where
  "hello = \<lparr>content = ''hello world'', authorId = ''42'', authorTag = ''user#0001'', attachments = []\<rparr>"

definition strict_custom_config :: filter_config where
  "strict_custom_config = default_filter_config\<lparr>strictMode := True, customWords := [''foo'', ''bar'']\<rparr>"

definition spoiler_config :: filter_config where
  "spoiler_config = default_filter_config\<lparr>customWords := [''spoiler'']\<rparr>"

section \<open>Escalation tiers\<close>

lemma getUserViolations_fresh:
  "userViolations s userId = None \<Longrightarrow> count (getUserViolations s userId) = 0"
  by (simp add: getUserViolations_def default_violation_def)

lemma count_addViolation:
  "count (getUserViolations (snd (addViolation s now userId rsn sev)) userId)
     = count (getUserViolations s userId) + 1"
  by (simp add: addViolation_def getUserViolations_def Let_def)

lemma count_addViolations:
  "count (getUserViolations (addViolations s userId calls) userId)
     = count (getUserViolations s userId) + length calls"
proof (induction calls arbitrary: s)
  case Nil
  show ?case by simp
next
  case (Cons c calls)
  obtain now rsn sev where c: "c = (now, rsn, sev)" by (cases c) auto
  show ?case
    unfolding c addViolations.simps Cons.IH count_addViolation by simp
qed

text \<open>
  C1. \<open>determineAction\<close> maps the severity and the stored violation count to an action by
  tiers, either threshold sufficing: ban at severity 80 or count 5, else kick at 60 or 3,
  else timeout at 40 or 2, else warn at 20 or 1, else none. For a user without a violation
  record, severity 85 yields ban; after five \<open>addViolation\<close> calls with severity 10 each,
  a decision at severity 10 yields ban, from the count alone.
\<close>

theorem C1_determineAction_tiers:
  "determineAction s userId sev =
     (if sev \<ge> 80 \<or> count (getUserViolations s userId) \<ge> 5 then Ban
      else if sev \<ge> 60 \<or> count (getUserViolations s userId) \<ge> 3 then Kick
      else if sev \<ge> 40 \<or> count (getUserViolations s userId) \<ge> 2 then Timeout
      else if sev \<ge> 20 \<or> count (getUserViolations s userId) \<ge> 1 then Warn
      else ANone)
   \<and> (userViolations s userId = None \<longrightarrow>
        determineAction s userId 85 = Ban
      \<and> determineAction s userId 10 = ANone
      \<and> determineAction
            (addViolations s userId
               [(t1, r1, 10), (t2, r2, 10), (t3, r3, 10), (t4, r4, 10), (t5, r5, 10)])
            userId 10 = Ban)"
proof -
  have tiers: "\<And>s' x. determineAction s' userId x =
     (if x \<ge> 80 \<or> count (getUserViolations s' userId) \<ge> 5 then Ban
      else if x \<ge> 60 \<or> count (getUserViolations s' userId) \<ge> 3 then Kick
      else if x \<ge> 40 \<or> count (getUserViolations s' userId) \<ge> 2 then Timeout
      else if x \<ge> 20 \<or> count (getUserViolations s' userId) \<ge> 1 then Warn
      else ANone)"
    by (simp add: determineAction_def Let_def)
  have five: "userViolations s userId = None \<Longrightarrow>
      count (getUserViolations (addViolations s userId
               [(t1, r1, 10), (t2, r2, 10), (t3, r3, 10), (t4, r4, 10), (t5, r5, 10)]) userId) = 5"
    by (simp only: count_addViolations getUserViolations_fresh) simp
  show ?thesis
    using tiers five by (simp add: getUserViolations_fresh)
qed

theorem C1_determineAction_tiers_witness:
  "userViolations new_SpamDetection ''42'' = None
   \<and> determineAction new_SpamDetection ''42'' 85 = Ban
   \<and> determineAction new_SpamDetection ''42'' 10 = ANone
   \<and> determineAction
        (addViolations new_SpamDetection ''42''
           [(1, ''a'', 10), (2, ''b'', 10), (3, ''c'', 10), (4, ''d'', 10), (5, ''e'', 10)])
        ''42'' 10 = Ban"
  using C1_determineAction_tiers [of new_SpamDetection "''42''" 0 1 "''a''" 2 "''b''" 3 "''c''"
      4 "''d''" 5 "''e''"]
  by (simp add: new_SpamDetection_def)

section \<open>Expiry of violation records\<close>

lemma getUserViolations_stored:
  "userViolations s userId = Some v \<Longrightarrow> getUserViolations s userId = v"
  by (simp add: getUserViolations_def)

lemma userViolations_cleanup:
  "userViolations (cleanup s now) userId =
     (case userViolations s userId of
        None \<Rightarrow> None
      | Some v \<Rightarrow> if now - lastViolation v > 3600000 then None else Some v)"
  by (simp add: cleanup_def Let_def)

text \<open>
  C6, as stated, at a concrete input: a user with three violations, the last one at time 2,
  read two hours later with no sweep in between. The read still observes count 3 and the
  decision at severity 0 is kick.
\<close>

theorem C6_counterexample:
  "userViolations
      (addViolations new_SpamDetection ''42'' [(0, ''a'', 10), (1, ''b'', 10), (2, ''c'', 10)]) ''42''
     = Some \<lparr>count = 3, lastViolation = 2, lastReason = Some ''c'', lastSeverity = Some 10\<rparr>
   \<and> (7200000::int) - 2 > 60 * 60 * 1000
   \<and> count (getUserViolations
        (addViolations new_SpamDetection ''42'' [(0, ''a'', 10), (1, ''b'', 10), (2, ''c'', 10)]) ''42'')
       = 3
   \<and> determineAction
        (addViolations new_SpamDetection ''42'' [(0, ''a'', 10), (1, ''b'', 10), (2, ''c'', 10)])
        ''42'' 0 = Kick"
  by (simp add: new_SpamDetection_def addViolation_def getUserViolations_def
      default_violation_def determineAction_def Let_def)

text \<open>
  C6, amended. For a user whose last violation is more than one hour old, a read returns the
  stored record with its count unchanged; the count is observed as 0 once \<open>cleanup\<close> has
  run at that time, because the sweep deletes the record and the read falls back to the
  default record. After the sweep the decision depends on the severity alone.
\<close>

theorem C6_expiry_by_cleanup:
  assumes "userViolations s userId = Some v"
      and "now - lastViolation v > 60 * 60 * 1000"
  shows "getUserViolations s userId = v
       \<and> userViolations (cleanup s now) userId = None
       \<and> count (getUserViolations (cleanup s now) userId) = 0
       \<and> determineAction (cleanup s now) userId sev =
           (if sev \<ge> 80 then Ban else if sev \<ge> 60 then Kick
            else if sev \<ge> 40 then Timeout else if sev \<ge> 20 then Warn else ANone)"
proof -
  have stored: "getUserViolations s userId = v"
    using assms(1) by (rule getUserViolations_stored)
  have gone: "userViolations (cleanup s now) userId = None"
    using assms by (simp add: userViolations_cleanup)
  then have zero: "count (getUserViolations (cleanup s now) userId) = 0"
    by (rule getUserViolations_fresh)
  have "determineAction (cleanup s now) userId sev =
           (if sev \<ge> 80 then Ban else if sev \<ge> 60 then Kick
            else if sev \<ge> 40 then Timeout else if sev \<ge> 20 then Warn else ANone)"
    using zero by (simp add: determineAction_def Let_def)
  with stored gone zero show ?thesis by blast
qed

theorem C6_expiry_by_cleanup_witness:
  "userViolations (snd (addViolation new_SpamDetection 2 ''42'' ''c'' 10)) ''42''
     = Some \<lparr>count = 1, lastViolation = 2, lastReason = Some ''c'', lastSeverity = Some 10\<rparr>
   \<and> (7200000::int) - 2 > 60 * 60 * 1000
   \<and> count (getUserViolations (snd (addViolation new_SpamDetection 2 ''42'' ''c'' 10)) ''42'') = 1
   \<and> count (getUserViolations
         (cleanup (snd (addViolation new_SpamDetection 2 ''42'' ''c'' 10)) 7200000) ''42'') = 0"
proof -
  let ?s = "snd (addViolation new_SpamDetection 2 ''42'' ''c'' 10)"
  let ?v = "\<lparr>count = 1, lastViolation = 2, lastReason = Some ''c'', lastSeverity = Some (10::real)\<rparr>"
  have stored: "userViolations ?s ''42'' = Some ?v"
    by (simp add: new_SpamDetection_def addViolation_def getUserViolations_def
        default_violation_def Let_def)
  have old: "(7200000::int) - lastViolation ?v > 60 * 60 * 1000" by simp
  have "getUserViolations ?s ''42'' = ?v
      \<and> count (getUserViolations (cleanup ?s 7200000) ''42'') = 0"
    using C6_expiry_by_cleanup [OF stored old] by blast
  with stored show ?thesis by simp
qed

section \<open>The similarity ratio\<close>

lemma lev_Nil2 [simp]: "lev xs [] = length xs"
  by (cases xs) simp_all

lemma lev_sym: "lev xs ys = lev ys xs"
  by (induction xs ys rule: lev.induct) (simp_all add: min.commute min.left_commute)

lemma lev_same [simp]: "lev xs xs = 0"
  by (induction xs) simp_all

lemma fold_upt_option_inv:
  assumes "a \<le> b" and "P a s"
    and step: "\<And>k t. a \<le> k \<Longrightarrow> k < b \<Longrightarrow> P k t \<Longrightarrow> \<exists>t'. f k (Some t) = Some t' \<and> P (Suc k) t'"
  shows "\<exists>s'. fold f [a..<b] (Some s) = Some s' \<and> P b s'"
  using assms(1) step
proof (induction b rule: dec_induct)
  case base
  show ?case using \<open>P a s\<close> by simp
next
  case (step n)
  have "\<exists>s'. fold f [a..<n] (Some s) = Some s' \<and> P n s'"
    using step.IH step.prems by (meson less_Suc_eq)
  then obtain s' where s': "fold f [a..<n] (Some s) = Some s'" "P n s'" by blast
  obtain t' where "f n (Some s') = Some t'" "P (Suc n) t'"
    using step.prems [of n s'] step.hyps s'(2) by auto
  then show ?case using s'(1) step.hyps by simp
qed

lemma lev_init_rows_eq:
  "fold (\<lambda>i mo. case mo of None \<Rightarrow> None
                  | Some m \<Rightarrow> Some (m(i \<mapsto> (\<lambda>k. None)(0 := Some i))))
        [0..<n] (Some (\<lambda>i. None))
   = Some (\<lambda>i. if i < n then Some ((\<lambda>k. None)(0 := Some i)) else None)"
  by (induction n) (auto simp: fun_eq_iff)

lemma lev_init_cols_eq:
  "m 0 = Some r0 \<Longrightarrow>
   fold (\<lambda>j mo. case mo of None \<Rightarrow> None
                  | Some m \<Rightarrow> (case m 0 of None \<Rightarrow> None
                               | Some r0 \<Rightarrow> Some (m(0 \<mapsto> r0(j := Some j)))))
        [0..<n] (Some m)
   = Some (m(0 \<mapsto> (\<lambda>j. if j < n then Some j else r0 j)))"
  by (induction n) (auto simp: fun_eq_iff)

lemma lev_D_0: "lev_D str1 str2 0 j = min j (length str1)" "lev_D str1 str2 i 0 = min i (length str2)"
  by (simp_all add: lev_D_def min.commute)

lemma lev_D_Suc:
  assumes "i < length str2" "j < length str1"
  shows "lev_D str1 str2 (Suc i) (Suc j) =
     (if str2 ! i = str1 ! j then lev_D str1 str2 i j
      else min (lev_D str1 str2 i j + 1)
               (min (lev_D str1 str2 (Suc i) j + 1) (lev_D str1 str2 i (Suc j) + 1)))"
  using assms by (simp add: lev_D_def take_Suc_conv_app_nth)

lemma lev_inv_init:
  "\<exists>m. lev_init_cols (length str1) (lev_init_rows (length str2)) = Some m
       \<and> lev_inv str1 str2 1 1 m"
proof -
  let ?A = "\<lambda>i. if i < Suc (length str2) then Some ((\<lambda>k. None)(0 := Some i)) else None"
  let ?B = "?A(0 \<mapsto> (\<lambda>j. if j < Suc (length str1) then Some j else ((\<lambda>k. None)(0 := Some 0)) j))"
  have rows: "lev_init_rows (length str2) = Some ?A"
    unfolding lev_init_rows_def by (rule lev_init_rows_eq)
  have "?A 0 = Some ((\<lambda>k. None)(0 := Some 0))" by simp
  then have cols: "lev_init_cols (length str1) (Some ?A) = Some ?B"
    unfolding lev_init_cols_def by (rule lev_init_cols_eq)
  have "lev_inv str1 str2 1 1 ?B"
    by (auto simp: lev_inv_def cell_def lev_D_0)
  with rows cols show ?thesis by simp
qed

lemma lev_cell_step:
  assumes inv: "lev_inv str1 str2 i j m"
    and i: "1 \<le> i" "i \<le> length str2" and j: "1 \<le> j" "j \<le> length str1"
  shows "\<exists>m'. lev_cell str1 str2 i j (Some m) = Some m' \<and> lev_inv str1 str2 i (Suc j) m'"
proof -
  obtain i0 j0 where ij: "i = Suc i0" "j = Suc j0"
    using i(1) j(1) by (metis One_nat_def Suc_le_D)
  have i0: "i0 < length str2" and j0: "j0 < length str1" using i j ij by simp_all
  have rows: "\<And>i'. i' \<le> length str2 \<Longrightarrow> \<exists>r. m i' = Some r"
    using inv by (auto simp: lev_inv_def)
  obtain ri where ri: "m i = Some ri" using rows [of i] i(2) by blast
  obtain rp where rp: "m i0 = Some rp" using rows [of i0] i0 by auto
  have known: "\<And>i' j'. i' \<le> length str2 \<Longrightarrow> j' \<le> length str1 \<Longrightarrow>
        (i' < i \<or> (i' = i \<and> j' < j) \<or> j' = 0) \<Longrightarrow> cell m i' j' = Some (lev_D str1 str2 i' j')"
    using inv unfolding lev_inv_def by blast
  have a: "rp j0 = Some (lev_D str1 str2 i0 j0)"
    using known [of i0 j0] i0 j0 ij rp by (simp add: cell_def)
  have b: "ri j0 = Some (lev_D str1 str2 i j0)"
    using known [of i j0] i j0 ij ri by (simp add: cell_def)
  have c: "rp j = Some (lev_D str1 str2 i0 j)"
    using known [of i0 j] i0 j ij rp by (simp add: cell_def)
  let ?v = "Some (lev_D str1 str2 i j)"
  let ?m' = "m(i \<mapsto> ri(j := ?v))"
  have "lev_cell str1 str2 i j (Some m) = Some ?m'"
    using ri rp a b c i0 j0
    by (simp add: lev_cell_def ij charAt_def js_min3_def js_succ_def lev_D_Suc)
  moreover have "lev_inv str1 str2 i (Suc j) ?m'"
    unfolding lev_inv_def
  proof (intro conjI allI impI)
    fix i' assume "i' \<le> length str2"
    then show "?m' i' \<noteq> None" using inv by (simp add: lev_inv_def)
  next
    fix i' j'
    assume h: "i' \<le> length str2" "j' \<le> length str1" "i' < i \<or> i' = i \<and> j' < Suc j \<or> j' = 0"
    show "cell ?m' i' j' = Some (lev_D str1 str2 i' j')"
    proof (cases "i' = i \<and> j' = j")
      case True
      then show ?thesis by (simp add: cell_def)
    next
      case False
      then have "cell ?m' i' j' = cell m i' j'" using ri by (auto simp: cell_def)
      moreover have "i' < i \<or> (i' = i \<and> j' < j) \<or> j' = 0" using h(3) False by auto
      ultimately show ?thesis using known h(1,2) by simp
    qed
  qed
  ultimately show ?thesis by blast
qed

lemma lev_row_step:
  assumes inv: "lev_inv str1 str2 i 1 m" and i: "1 \<le> i" "i \<le> length str2"
  shows "\<exists>m'. lev_row str1 str2 i (Some m) = Some m' \<and> lev_inv str1 str2 (Suc i) 1 m'"
proof -
  have "\<exists>m'. fold (lev_cell str1 str2 i) [1..<Suc (length str1)] (Some m) = Some m'
            \<and> lev_inv str1 str2 i (Suc (length str1)) m'"
  proof (rule fold_upt_option_inv [where P = "lev_inv str1 str2 i"])
    show "1 \<le> Suc (length str1)" by simp
    show "lev_inv str1 str2 i 1 m" by (rule inv)
    fix k t assume "1 \<le> k" "k < Suc (length str1)" "lev_inv str1 str2 i k t"
    then show "\<exists>t'. lev_cell str1 str2 i k (Some t) = Some t' \<and> lev_inv str1 str2 i (Suc k) t'"
      using lev_cell_step [of str1 str2 i k t] i by simp
  qed
  then obtain m' where m': "lev_row str1 str2 i (Some m) = Some m'"
      "lev_inv str1 str2 i (Suc (length str1)) m'"
    by (auto simp: lev_row_def)
  have "lev_inv str1 str2 (Suc i) 1 m'"
    unfolding lev_inv_def
  proof (intro conjI allI impI)
    fix i' assume "i' \<le> length str2"
    then show "m' i' \<noteq> None" using m'(2) by (simp add: lev_inv_def)
  next
    fix i' j'
    assume h: "i' \<le> length str2" "j' \<le> length str1" "i' < Suc i \<or> i' = Suc i \<and> j' < 1 \<or> j' = 0"
    then have "i' < i \<or> (i' = i \<and> j' < Suc (length str1)) \<or> j' = 0" by auto
    then show "cell m' i' j' = Some (lev_D str1 str2 i' j')"
      using m'(2) h(1,2) unfolding lev_inv_def by blast
  qed
  with m'(1) show ?thesis by blast
qed

lemma levenshteinDistance_lev:
  "levenshteinDistance str1 str2 = Some (lev (rev str2) (rev str1))"
proof -
  obtain m0 where m0: "lev_init_cols (length str1) (lev_init_rows (length str2)) = Some m0"
      "lev_inv str1 str2 1 1 m0"
    using lev_inv_init by blast
  have "\<exists>m'. fold (lev_row str1 str2) [1..<Suc (length str2)] (Some m0) = Some m'
            \<and> lev_inv str1 str2 (Suc (length str2)) 1 m'"
  proof (rule fold_upt_option_inv [where P = "\<lambda>i. lev_inv str1 str2 i 1"])
    show "1 \<le> Suc (length str2)" by simp
    show "lev_inv str1 str2 1 1 m0" by (rule m0(2))
    fix k t assume "1 \<le> k" "k < Suc (length str2)" "lev_inv str1 str2 k 1 t"
    then show "\<exists>t'. lev_row str1 str2 k (Some t) = Some t' \<and> lev_inv str1 str2 (Suc k) 1 t'"
      using lev_row_step [of str1 str2 k t] by simp
  qed
  then obtain m' where m': "fold (lev_row str1 str2) [1..<Suc (length str2)] (Some m0) = Some m'"
      "lev_inv str1 str2 (Suc (length str2)) 1 m'"
    by blast
  have "cell m' (length str2) (length str1) = Some (lev_D str1 str2 (length str2) (length str1))"
    using m'(2) by (simp add: lev_inv_def)
  then show ?thesis
    using m0(1) m'(1) by (simp add: levenshteinDistance_def cell_def lev_D_def split: option.splits)
qed

lemma calculateSimilarity_eq:
  "calculateSimilarity a b =
     Some (if max (length a) (length b) = 0 then 1
           else (real (max (length a) (length b)) - real (lev (rev a) (rev b)))
                / real (max (length a) (length b)))"
proof (cases "length a > length b")
  case True
  then have m: "max (length a) (length b) = length a" by simp
  have "levenshteinDistance a b = Some (lev (rev a) (rev b))"
    by (simp add: levenshteinDistance_lev lev_sym [of "rev b"])
  with True m show ?thesis by (simp add: calculateSimilarity_def)
next
  case False
  then have m: "max (length a) (length b) = length b" by simp
  have "levenshteinDistance b a = Some (lev (rev a) (rev b))"
    by (simp add: levenshteinDistance_lev)
  with False m show ?thesis by (auto simp: calculateSimilarity_def)
qed

text \<open>
  C5. The similarity of a string with itself is 1, also for the empty string; the
  similarity of a non-empty string with the empty string is 0; the similarity is
  symmetric; and it is (maxLen - distance) / maxLen, where the distance is the one
  computed by the matrix loops of \<open>levenshteinDistance\<close>, which is the Levenshtein
  recurrence \<open>lev\<close>.
\<close>

theorem C5_similarity:
  "calculateSimilarity s s = Some 1
   \<and> calculateSimilarity ([] :: 'a list) [] = Some 1
   \<and> (s \<noteq> [] \<longrightarrow> calculateSimilarity s [] = Some 0)
   \<and> calculateSimilarity a b = calculateSimilarity b a
   \<and> levenshteinDistance a b = Some (lev (rev b) (rev a))
   \<and> calculateSimilarity a b =
       Some (if max (length a) (length b) = 0 then 1
             else (real (max (length a) (length b)) - real (lev (rev a) (rev b)))
                  / real (max (length a) (length b)))"
proof -
  have same: "calculateSimilarity s s = Some 1"
    by (simp add: calculateSimilarity_eq)
  have empty: "calculateSimilarity ([] :: 'a list) [] = Some 1"
    by (simp add: calculateSimilarity_eq)
  have zero: "s \<noteq> [] \<longrightarrow> calculateSimilarity s [] = Some 0"
    by (simp add: calculateSimilarity_eq)
  have sym: "calculateSimilarity a b = calculateSimilarity b a"
    by (simp add: calculateSimilarity_eq max.commute lev_sym [of "rev a"])
  show ?thesis
    using same empty zero sym levenshteinDistance_lev [of a b] calculateSimilarity_eq [of a b]
    by blast
qed

theorem C5_similarity_witness:
  "calculateSimilarity ''spam'' ''spam'' = Some 1
   \<and> ''spam'' \<noteq> []
   \<and> calculateSimilarity ''spam'' [] = Some 0
   \<and> calculateSimilarity ''kitten'' ''sitting'' = calculateSimilarity ''sitting'' ''kitten''
   \<and> levenshteinDistance ''kitten'' ''sitting'' = Some 3
   \<and> calculateSimilarity ''kitten'' ''sitting'' = Some (4 / 7)"
proof -
  note inst = C5_similarity [of "''spam''" "''kitten''" "''sitting''"]
  have d: "lev (rev ''sitting'') (rev ''kitten'') = 3"
    and d': "lev (rev ''kitten'') (rev ''sitting'') = 3"
    by simp_all
  have 1: "calculateSimilarity ''spam'' ''spam'' = Some 1" using inst by blast
  have 2: "calculateSimilarity ''spam'' [] = Some 0" using inst by blast
  have 3: "calculateSimilarity ''kitten'' ''sitting'' = calculateSimilarity ''sitting'' ''kitten''"
    using inst by blast
  have "levenshteinDistance ''kitten'' ''sitting'' = Some (lev (rev ''sitting'') (rev ''kitten''))"
    using inst by blast
  then have 4: "levenshteinDistance ''kitten'' ''sitting'' = Some 3"
    by (simp only: d)
  have "calculateSimilarity ''kitten'' ''sitting'' =
       Some (if max (length ''kitten'') (length ''sitting'') = 0 then 1
             else (real (max (length ''kitten'') (length ''sitting''))
                     - real (lev (rev ''kitten'') (rev ''sitting'')))
                  / real (max (length ''kitten'') (length ''sitting'')))"
    using inst by blast
  then have 5: "calculateSimilarity ''kitten'' ''sitting'' = Some (4 / 7)"
    by (simp only: d') simp
  show ?thesis using 1 2 3 4 5 by blast
qed

section \<open>The pattern check\<close>

lemma takeWhile_eq_replicate: "takeWhile (\<lambda>x. x = c) xs = replicate (length (takeWhile (\<lambda>x. x = c) xs)) c"
  by (induction xs) auto

lemma match_repeatedChars_run:
  "match_repeatedChars cnt \<noteq> [] \<longleftrightarrow>
     (\<exists>xs c ys. cnt = xs @ replicate 5 c @ ys \<and> \<not> lineTerminator c)"
proof (induction cnt rule: match_repeatedChars.induct)
  case 1
  show ?case by simp
next
  case (2 c rest)
  let ?run = "takeWhile (\<lambda>x. x = c) rest"
  show ?case
  proof (cases "\<not> lineTerminator c \<and> length ?run \<ge> 4")
    case True
    then obtain n where n: "length ?run = 4 + n" by (metis le_Suc_ex)
    have "rest = ?run @ dropWhile (\<lambda>x. x = c) rest" by simp
    also have "?run = replicate (4 + n) c"
      using takeWhile_eq_replicate [of c rest] n by simp
    finally have "rest = replicate (4 + n) c @ dropWhile (\<lambda>x. x = c) rest" .
    moreover have "c # replicate (4 + n) c = replicate 5 c @ replicate n c"
      by (simp add: numeral_eq_Suc)
    ultimately have "c # rest = [] @ replicate 5 c @ (replicate n c @ dropWhile (\<lambda>x. x = c) rest)"
      by (metis append_Cons append_Nil append_assoc)
    with True show ?thesis by (metis match_repeatedChars.simps(2) list.discI)
  next
    case False
    have "(\<exists>xs d ys. c # rest = xs @ replicate 5 d @ ys \<and> \<not> lineTerminator d)
          \<longleftrightarrow> (\<exists>xs d ys. rest = xs @ replicate 5 d @ ys \<and> \<not> lineTerminator d)"
    proof
      assume "\<exists>xs d ys. c # rest = xs @ replicate 5 d @ ys \<and> \<not> lineTerminator d"
      then obtain xs d ys where h: "c # rest = xs @ replicate 5 d @ ys" "\<not> lineTerminator d" by blast
      show "\<exists>xs d ys. rest = xs @ replicate 5 d @ ys \<and> \<not> lineTerminator d"
      proof (cases xs)
        case Nil
        with h have "c = d" "rest = replicate 4 d @ ys" by (simp_all add: numeral_eq_Suc)
        then have "length (takeWhile (\<lambda>x. x = c) rest) \<ge> 4"
          by (simp add: numeral_eq_Suc)
        with False h(2) \<open>c = d\<close> show ?thesis by simp
      next
        case (Cons x xs')
        with h show ?thesis by auto
      qed
    next
      assume "\<exists>xs d ys. rest = xs @ replicate 5 d @ ys \<and> \<not> lineTerminator d"
      then obtain xs d ys where "rest = xs @ replicate 5 d @ ys" "\<not> lineTerminator d" by blast
      then have "c # rest = (c # xs) @ replicate 5 d @ ys \<and> \<not> lineTerminator d" by simp
      then show "\<exists>xs d ys. c # rest = xs @ replicate 5 d @ ys \<and> \<not> lineTerminator d" by blast
    qed
    with False 2 show ?thesis by auto
  qed
qed

lemma match_capsLock_runs:
  "\<forall>m \<in> set (match_capsLock cnt). length m \<ge> 10 \<and> list_all capital m"
proof (induction cnt rule: match_capsLock.induct)
  case 1
  show ?case by simp
next
  case (2 c rest)
  show ?case
  proof (cases "capital c \<and> length (c # takeWhile capital rest) \<ge> 10")
    case True
    have "list_all capital (takeWhile capital rest)"
      by (simp add: list_all_iff) (meson set_takeWhileD)
    with True 2 show ?thesis by simp
  next
    case False
    with 2 show ?thesis by auto
  qed
qed

lemma checkContentPatterns_confidence:
  "check_result.confidence (checkContentPatterns cnt) =
      (if match_repeatedChars cnt \<noteq> [] then 25 else 0)
    + (if match_capsLock cnt \<noteq> [] \<and> length cnt > 20
          \<and> real (length (concat (match_capsLock cnt))) / real (length cnt) > 0.7 then 20 else 0)
    + (if length (filter emoji (codePoints cnt)) > 10 then 30 else 0)
    + (if length (filter zalgo cnt) > 20 then 40 else 0)
    + (if length (filter invisible cnt) > 5 then 35 else 0)"
  by (simp add: checkContentPatterns_def Let_def flag_def empty_result_def)

lemma checkContentPatterns_severity:
  "check_result.severity (checkContentPatterns cnt) =
      (if match_repeatedChars cnt \<noteq> [] then 20 else 0)
    + (if match_capsLock cnt \<noteq> [] \<and> length cnt > 20
          \<and> real (length (concat (match_capsLock cnt))) / real (length cnt) > 0.7 then 15 else 0)
    + (if length (filter emoji (codePoints cnt)) > 10 then 25 else 0)
    + (if length (filter zalgo cnt) > 20 then 35 else 0)
    + (if length (filter invisible cnt) > 5 then 30 else 0)"
  by (simp add: checkContentPatterns_def Let_def flag_def empty_result_def)

lemma checkContentPatterns_isSpam:
  "isSpam (checkContentPatterns cnt) \<longleftrightarrow>
      match_repeatedChars cnt \<noteq> []
    \<or> (match_capsLock cnt \<noteq> [] \<and> length cnt > 20
          \<and> real (length (concat (match_capsLock cnt))) / real (length cnt) > 0.7)
    \<or> length (filter emoji (codePoints cnt)) > 10
    \<or> length (filter zalgo cnt) > 20
    \<or> length (filter invisible cnt) > 5"
  by (simp add: checkContentPatterns_def Let_def flag_def empty_result_def)

text \<open>
  C8, as stated, at concrete inputs.
  A message of 21 different combining marks U+0300 to U+0314 triggers the zalgo signal and
  no other: the check adds 40 to the confidence, not 35 (and 35 to the severity).
  In the 21 code units of \<open>ABCDEFGHIJ KLMNOPQRST\<close> no run of capitals covers more than 70% of
  the message (each covers 10 of 21); the two runs together do, and the check adds 20 and
  15.
  Five line feeds are a run of five equal characters, and so are six U+1F600 (twelve code
  units, no two neighbours equal): the check adds nothing and does not flag.
  The eleven emoji U+1F910 to U+1F91A, the 21 combining marks U+0591 to U+05A5 and the six
  zero-width characters U+2060 to U+2064 and U+200E lie outside the ranges of the patterns:
  the check adds nothing and does not flag.
\<close>

theorem C8_counterexample:
  "length (filter zalgo zalgo21) > 20
   \<and> match_repeatedChars zalgo21 = []
   \<and> match_capsLock zalgo21 = []
   \<and> filter emoji (codePoints zalgo21) = []
   \<and> filter invisible zalgo21 = []
   \<and> check_result.confidence (checkContentPatterns zalgo21) = 40
   \<and> check_result.confidence (checkContentPatterns zalgo21) \<noteq> 35
   \<and> check_result.severity (checkContentPatterns zalgo21) = 35
   \<and> length capsTwice = 21
   \<and> match_capsLock capsTwice =
        [[65, 66, 67, 68, 69, 70, 71, 72, 73, 74], [75, 76, 77, 78, 79, 80, 81, 82, 83, 84]]
   \<and> list_all (\<lambda>m. real (length m) / real (length capsTwice) \<le> 0.7) (match_capsLock capsTwice)
   \<and> check_result.confidence (checkContentPatterns capsTwice) = 20
   \<and> check_result.severity (checkContentPatterns capsTwice) = 15
   \<and> check_result.confidence (checkContentPatterns newlines5) = 0
   \<and> \<not> isSpam (checkContentPatterns newlines5)
   \<and> codePoints grinning6 = [0x1F600, 0x1F600, 0x1F600, 0x1F600, 0x1F600, 0x1F600]
   \<and> check_result.confidence (checkContentPatterns grinning6) = 0
   \<and> \<not> isSpam (checkContentPatterns grinning6)
   \<and> codePoints faces11 = [0x1F910, 0x1F911, 0x1F912, 0x1F913, 0x1F914, 0x1F915, 0x1F916,
                            0x1F917, 0x1F918, 0x1F919, 0x1F91A]
   \<and> check_result.confidence (checkContentPatterns faces11) = 0
   \<and> \<not> isSpam (checkContentPatterns faces11)
   \<and> check_result.confidence (checkContentPatterns accents21) = 0
   \<and> \<not> isSpam (checkContentPatterns accents21)
   \<and> check_result.confidence (checkContentPatterns joiners6) = 0
   \<and> \<not> isSpam (checkContentPatterns joiners6)"
proof -
  note ranges = zalgo_def capital_def emoji_def invisible_def lineTerminator_def
  note check = checkContentPatterns_def Let_def flag_def empty_result_def
  have marks: "length (filter zalgo zalgo21) > 20
     \<and> match_repeatedChars zalgo21 = []
     \<and> match_capsLock zalgo21 = []
     \<and> filter emoji (codePoints zalgo21) = []
     \<and> filter invisible zalgo21 = []
     \<and> check_result.confidence (checkContentPatterns zalgo21) = 40
     \<and> check_result.confidence (checkContentPatterns zalgo21) \<noteq> 35
     \<and> check_result.severity (checkContentPatterns zalgo21) = 35"
    by (simp add: checkContentPatterns_confidence checkContentPatterns_severity)
       (simp add: zalgo21_def ranges)
  have caps: "length capsTwice = 21
     \<and> match_capsLock capsTwice =
          [[65, 66, 67, 68, 69, 70, 71, 72, 73, 74], [75, 76, 77, 78, 79, 80, 81, 82, 83, 84]]
     \<and> list_all (\<lambda>m. real (length m) / real (length capsTwice) \<le> 0.7) (match_capsLock capsTwice)
     \<and> check_result.confidence (checkContentPatterns capsTwice) = 20
     \<and> check_result.severity (checkContentPatterns capsTwice) = 15"
    by (simp add: checkContentPatterns_confidence checkContentPatterns_severity)
       (simp add: capsTwice_def ranges)
  have runs: "check_result.confidence (checkContentPatterns newlines5) = 0
     \<and> \<not> isSpam (checkContentPatterns newlines5)
     \<and> codePoints grinning6 = [0x1F600, 0x1F600, 0x1F600, 0x1F600, 0x1F600, 0x1F600]
     \<and> check_result.confidence (checkContentPatterns grinning6) = 0
     \<and> \<not> isSpam (checkContentPatterns grinning6)"
    by (simp add: check newlines5_def grinning6_def ranges)
  have faces: "codePoints faces11 = [0x1F910, 0x1F911, 0x1F912, 0x1F913, 0x1F914, 0x1F915, 0x1F916,
                            0x1F917, 0x1F918, 0x1F919, 0x1F91A]
     \<and> check_result.confidence (checkContentPatterns faces11) = 0
     \<and> \<not> isSpam (checkContentPatterns faces11)"
    by (simp add: check faces11_def ranges)
  have others: "check_result.confidence (checkContentPatterns accents21) = 0
     \<and> \<not> isSpam (checkContentPatterns accents21)
     \<and> check_result.confidence (checkContentPatterns joiners6) = 0
     \<and> \<not> isSpam (checkContentPatterns joiners6)"
    by (simp add: check accents21_def joiners6_def ranges)
  from marks caps runs faces others show ?thesis by blast
qed

text \<open>
  C8, amended. The text is a string of UTF-16 code units. The pattern check adds, per
  signal and independently of the others: 25 to the confidence and 20 to the severity when
  some code unit other than a line terminator (U+000A, U+000D, U+2028, U+2029) occurs at
  least 5 times in a row; 20 and 15 when the text is longer than 20 code units and the
  matches of \<open>/[A-Z]{10,}/g\<close>, each a run of at least 10 capital letters \<open>A\<close> to \<open>Z\<close>,
  together cover more than 70% of its code units; 30 and 25 for more than 10 code points
  in U+1F600 to U+1F64F, U+1F300 to U+1F5FF, U+1F680 to U+1F6FF or U+1F1E0 to U+1F1FF;
  40 and 35 for more than 20 code units in U+0300 to U+036F, U+1AB0 to U+1AFF, U+1DC0 to
  U+1DFF or U+20D0 to U+20FF; 35 and 30 for more than 5 code units in U+200B to U+200D or
  U+FEFF. The check flags the message exactly when one of the signals is present.
\<close>

theorem C8_checkContentPatterns:
  "check_result.confidence (checkContentPatterns cnt) =
      (if match_repeatedChars cnt \<noteq> [] then 25 else 0)
    + (if match_capsLock cnt \<noteq> [] \<and> length cnt > 20
          \<and> real (length (concat (match_capsLock cnt))) / real (length cnt) > 0.7 then 20 else 0)
    + (if length (filter emoji (codePoints cnt)) > 10 then 30 else 0)
    + (if length (filter zalgo cnt) > 20 then 40 else 0)
    + (if length (filter invisible cnt) > 5 then 35 else 0)
   \<and> check_result.severity (checkContentPatterns cnt) =
      (if match_repeatedChars cnt \<noteq> [] then 20 else 0)
    + (if match_capsLock cnt \<noteq> [] \<and> length cnt > 20
          \<and> real (length (concat (match_capsLock cnt))) / real (length cnt) > 0.7 then 15 else 0)
    + (if length (filter emoji (codePoints cnt)) > 10 then 25 else 0)
    + (if length (filter zalgo cnt) > 20 then 35 else 0)
    + (if length (filter invisible cnt) > 5 then 30 else 0)
   \<and> (isSpam (checkContentPatterns cnt) \<longleftrightarrow>
        match_repeatedChars cnt \<noteq> []
      \<or> (match_capsLock cnt \<noteq> [] \<and> length cnt > 20
            \<and> real (length (concat (match_capsLock cnt))) / real (length cnt) > 0.7)
      \<or> length (filter emoji (codePoints cnt)) > 10
      \<or> length (filter zalgo cnt) > 20
      \<or> length (filter invisible cnt) > 5)
   \<and> (match_repeatedChars cnt \<noteq> [] \<longleftrightarrow>
        (\<exists>xs c ys. cnt = xs @ replicate 5 c @ ys \<and> \<not> lineTerminator c))
   \<and> (\<forall>m \<in> set (match_capsLock cnt). length m \<ge> 10 \<and> list_all capital m)"
  using checkContentPatterns_confidence [of cnt] checkContentPatterns_severity [of cnt]
    checkContentPatterns_isSpam [of cnt] match_repeatedChars_run [of cnt]
    match_capsLock_runs [of cnt]
  by blast

text \<open>
  The theorem at a message of six zero-width spaces followed by six letters a: the run
  signal and the invisible-character signal add up to confidence 60 and severity 50.
\<close>

theorem C8_checkContentPatterns_witness:
  "check_result.confidence (checkContentPatterns [8203, 8203, 8204, 8203, 8204, 8203, 97, 97, 97, 97, 97, 97]) = 60
   \<and> check_result.severity (checkContentPatterns [8203, 8203, 8204, 8203, 8204, 8203, 97, 97, 97, 97, 97, 97]) = 50
   \<and> isSpam (checkContentPatterns [8203, 8203, 8204, 8203, 8204, 8203, 97, 97, 97, 97, 97, 97])"
proof -
  let ?c = "[8203, 8203, 8204, 8203, 8204, 8203, 97, 97, 97, 97, 97, 97] :: jsstring"
  have sig: "match_repeatedChars ?c \<noteq> []" "match_capsLock ?c = []"
      "filter emoji (codePoints ?c) = []" "filter zalgo ?c = []"
      "length (filter invisible ?c) = 6"
    by (simp_all add: zalgo_def capital_def emoji_def invisible_def lineTerminator_def)
  show ?thesis
    using C8_checkContentPatterns [of ?c] sig by (simp add: lineTerminator_def)
qed

section \<open>The duplicate check\<close>

lemma history_analyzeMessage:
  "history (snd (analyzeMessage cfg s userId cnt chan now)) userId
     = recent_history s userId cnt chan now"
  by (simp add: analyzeMessage_def history_def Let_def)

lemma copies_recent_history:
  "copies cnt (recent_history s userId cnt chan now)
     = Suc (length (filter (\<lambda>m. msg.content m = cnt \<and> msg.timestamp m > now - 300000) (history s userId)))"
  by (simp add: recent_history_def copies_def history_def Let_def conj_commute)

lemma recent_history_keeps:
  assumes "\<forall>m \<in> set (history s userId). msg.content m = cnt \<longrightarrow> msg.timestamp m > T - 300000"
      and "now \<le> T" and "now > T - 300000"
  shows "copies cnt (recent_history s userId cnt chan now) = Suc (copies cnt (history s userId))"
    and "\<forall>m \<in> set (recent_history s userId cnt chan now). msg.content m = cnt \<longrightarrow> msg.timestamp m > T - 300000"
proof -
  have "filter (\<lambda>m. msg.content m = cnt \<and> msg.timestamp m > now - 300000) (history s userId)
        = filter (\<lambda>m. msg.content m = cnt) (history s userId)"
    using assms(1,2) by (intro filter_cong refl) auto
  then show "copies cnt (recent_history s userId cnt chan now) = Suc (copies cnt (history s userId))"
    by (simp add: copies_recent_history) (simp add: copies_def)
  show "\<forall>m \<in> set (recent_history s userId cnt chan now). msg.content m = cnt \<longrightarrow> msg.timestamp m > T - 300000"
    using assms by (auto simp: recent_history_def history_def Let_def)
qed

lemma copies_sendAll:
  assumes "\<forall>m \<in> set (history s userId). msg.content m = cnt \<longrightarrow> msg.timestamp m > T - 300000"
      and "\<forall>t \<in> set ts. t \<le> T \<and> t > T - 300000"
  shows "copies cnt (history (sendAll cfg s userId cnt ts) userId) = copies cnt (history s userId) + length ts
       \<and> (\<forall>m \<in> set (history (sendAll cfg s userId cnt ts) userId). msg.content m = cnt \<longrightarrow> msg.timestamp m > T - 300000)"
  using assms
proof (induction ts arbitrary: s)
  case Nil
  then show ?case by simp
next
  case (Cons t ts)
  let ?s = "snd (analyzeMessage cfg s userId cnt None t)"
  have t: "t \<le> T" "t > T - 300000" using Cons.prems(2) by auto
  have a: "copies cnt (history ?s userId) = Suc (copies cnt (history s userId))"
    and b: "\<forall>m \<in> set (history ?s userId). msg.content m = cnt \<longrightarrow> msg.timestamp m > T - 300000"
    using recent_history_keeps [OF Cons.prems(1) t] by (simp_all add: history_analyzeMessage)
  have "\<forall>t \<in> set ts. t \<le> T \<and> t > T - 300000" using Cons.prems(2) by simp
  from Cons.IH [OF b this] a show ?case by simp
qed

lemma isSpam_checkDuplicateMessages:
  "isSpam (checkDuplicateMessages cfg messages cnt) \<longleftrightarrow> int (copies cnt messages) > maxDuplicateMessages cfg"
  by (simp add: checkDuplicateMessages_def copies_def Let_def empty_result_def)

lemma checkDuplicateMessages_flagged:
  "int (copies cnt messages) > maxDuplicateMessages cfg \<Longrightarrow>
   checkDuplicateMessages cfg messages cnt =
     \<lparr>isSpam = True, check_result.confidence = min (real (copies cnt messages) * 20) 80,
      reasons = [DuplicateMessage (copies cnt messages)],
      check_result.severity = min (real (copies cnt messages) * 15) 60\<rparr>"
  by (simp add: checkDuplicateMessages_def copies_def Let_def)

lemma checkDuplicateMessages_quiet:
  "\<not> int (copies cnt messages) > maxDuplicateMessages cfg \<Longrightarrow>
   checkDuplicateMessages cfg messages cnt = empty_result"
  by (simp add: checkDuplicateMessages_def copies_def Let_def)

lemma no_dup_frequency: "DuplicateMessage n \<notin> set (reasons (checkMessageFrequency cfg ms now))"
  by (simp add: checkMessageFrequency_def Let_def flag_def empty_result_def)

lemma no_dup_patterns: "DuplicateMessage n \<notin> set (reasons (checkContentPatterns cnt))"
  by (simp add: checkContentPatterns_def Let_def flag_def empty_result_def)

lemma no_dup_similarity: "DuplicateMessage n \<notin> set (reasons (checkMessageSimilarity ms cnt))"
  by (simp add: checkMessageSimilarity_def Let_def empty_result_def)

lemma reasons_merge_check:
  "set (reasons (merge_check a r)) = set (reasons a) \<union> (if isSpam r then set (reasons r) else {})"
  by (simp add: merge_check_def)

lemma isSpam_merge_check: "isSpam (merge_check a r) \<longleftrightarrow> isSpam a \<or> isSpam r"
  by (simp add: merge_check_def)

lemma analyzeMessage_isSpam:
  "isSpam (fst (analyzeMessage cfg s userId cnt chan now)) \<longleftrightarrow>
     isSpam (checkDuplicateMessages cfg (recent_history s userId cnt chan now) cnt)
   \<or> isSpam (checkMessageFrequency cfg (recent_history s userId cnt chan now) now)
   \<or> isSpam (checkContentPatterns cnt)
   \<or> isSpam (checkMessageSimilarity (recent_history s userId cnt chan now) cnt)"
  by (simp add: analyzeMessage_def Let_def isSpam_merge_check empty_result_def)

lemma analyzeMessage_duplicate_reason:
  "DuplicateMessage n \<in> set (reasons (fst (analyzeMessage cfg s userId cnt chan now))) \<longleftrightarrow>
     int (copies cnt (recent_history s userId cnt chan now)) > maxDuplicateMessages cfg
     \<and> n = copies cnt (recent_history s userId cnt chan now)"
proof (cases "int (copies cnt (recent_history s userId cnt chan now)) > maxDuplicateMessages cfg")
  case True
  show ?thesis
    using True
    by (simp add: analyzeMessage_def Let_def reasons_merge_check empty_result_def
        no_dup_frequency no_dup_patterns no_dup_similarity checkDuplicateMessages_flagged)
next
  case False
  show ?thesis
    using False
    by (simp add: analyzeMessage_def Let_def reasons_merge_check empty_result_def
        no_dup_frequency no_dup_patterns no_dup_similarity checkDuplicateMessages_quiet)
qed

lemma similarity_same:
  "\<forall>x \<in> set ms. msg.content x = cnt \<Longrightarrow> fold (similarity_step cnt) ms acc = acc"
  by (induction ms arbitrary: acc) (auto simp: similarity_step_def split: prod.splits)

lemma checkMessageSimilarity_same:
  assumes "\<forall>x \<in> set ms. msg.content x = cnt"
  shows "checkMessageSimilarity ms cnt = empty_result"
proof -
  have "\<forall>x \<in> set (drop (length ms - 5) ms). msg.content x = cnt"
    using assms by (meson in_set_dropD)
  then have "fold (similarity_step cnt) (drop (length ms - 5) ms) (0, 0) = (0, 0)"
    by (rule similarity_same)
  then show ?thesis by (simp add: checkMessageSimilarity_def Let_def)
qed

lemma checkMessageFrequency_few:
  assumes "length ms < 5" and "int (length ms) \<le> maxMessagesPerMinute cfg"
  shows "\<not> isSpam (checkMessageFrequency cfg ms now)"
proof -
  have a: "length (filter (\<lambda>m. msg.timestamp m > now - 60000) ms) \<le> length ms"
    and b: "length (filter (\<lambda>m. msg.timestamp m > now - 10000) ms) \<le> length ms"
    by simp_all
  from a assms(2) have "\<not> int (length (filter (\<lambda>m. msg.timestamp m > now - 60000) ms)) > maxMessagesPerMinute cfg"
    by linarith
  moreover from b assms(1) have "\<not> length (filter (\<lambda>m. msg.timestamp m > now - 10000) ms) \<ge> 5"
    by linarith
  ultimately show ?thesis
    by (simp add: checkMessageFrequency_def Let_def empty_result_def flag_def)
qed

lemma recent_history_same:
  "\<forall>x \<in> set (history s userId). msg.content x = cnt \<Longrightarrow>
   \<forall>x \<in> set (recent_history s userId cnt chan now). msg.content x = cnt"
  by (auto simp: recent_history_def history_def Let_def)

lemma sendAll_same:
  "\<forall>x \<in> set (history s userId). msg.content x = cnt \<Longrightarrow>
   \<forall>x \<in> set (history (sendAll cfg s userId cnt ts) userId). msg.content x = cnt"
proof (induction ts arbitrary: s)
  case Nil
  then show ?case by simp
next
  case (Cons t ts)
  have "\<forall>x \<in> set (history (snd (analyzeMessage cfg s userId cnt None t)) userId). msg.content x = cnt"
    using recent_history_same [OF Cons.prems] by (simp add: history_analyzeMessage)
  from Cons.IH [OF this] show ?case by simp
qed

lemma copies_same:
  "\<forall>x \<in> set ms. msg.content x = cnt \<Longrightarrow> copies cnt ms = length ms"
  by (simp add: copies_def)

text \<open>
  C2, as stated, at a concrete input. With the default configuration
  (\<open>maxDuplicateMessages = 1\<close>) a user without history sends \<open>aaaaa\<close> once: this is the send
  number \<open>m = 1\<close>, the duplicate check does not flag it, and yet the analysis of the message
  has \<open>isSpam = true\<close>, for its repeated characters.
\<close>

theorem C2_counterexample:
  "maxDuplicateMessages default_spam_config = 1
   \<and> history new_SpamDetection ''42'' = []
   \<and> isSpam (fst (analyzeMessage default_spam_config new_SpamDetection ''42'' aaaaa None 0))
   \<and> reasons (fst (analyzeMessage default_spam_config new_SpamDetection ''42'' aaaaa None 0))
       = [ExcessiveRepeatedChars]
   \<and> \<not> isSpam (checkDuplicateMessages default_spam_config
           (recent_history new_SpamDetection ''42'' aaaaa None 0) aaaaa)"
proof -
  let ?h = "recent_history new_SpamDetection ''42'' aaaaa None 0"
  have h: "?h = [\<lparr>msg.content = aaaaa, msg.timestamp = 0, channelId = ''unknown''\<rparr>]"
    by (simp add: recent_history_def new_SpamDetection_def)
  have dup: "checkDuplicateMessages default_spam_config ?h aaaaa = empty_result"
    unfolding h by (simp add: checkDuplicateMessages_def default_spam_config_def)
  have freq: "checkMessageFrequency default_spam_config ?h 0 = empty_result"
    unfolding h by (simp add: checkMessageFrequency_def default_spam_config_def)
  have sim: "checkMessageSimilarity ?h aaaaa = empty_result"
    unfolding h by (simp add: checkMessageSimilarity_def)
  have pat: "checkContentPatterns aaaaa =
      \<lparr>isSpam = True, check_result.confidence = 25, reasons = [ExcessiveRepeatedChars],
       check_result.severity = 20\<rparr>"
    by (simp add: checkContentPatterns_def aaaaa_def Let_def flag_def empty_result_def
        lineTerminator_def capital_def emoji_def zalgo_def invisible_def)
  have a: "isSpam (fst (analyzeMessage default_spam_config new_SpamDetection ''42'' aaaaa None 0))"
    and r: "reasons (fst (analyzeMessage default_spam_config new_SpamDetection ''42'' aaaaa None 0))
       = [ExcessiveRepeatedChars]"
    by (simp_all add: analyzeMessage_def Let_def dup freq sim pat merge_check_def empty_result_def)
  have "maxDuplicateMessages default_spam_config = 1"
    by (simp add: default_spam_config_def)
  moreover have "history new_SpamDetection ''42'' = []"
    by (simp add: history_def new_SpamDetection_def)
  moreover have "\<not> isSpam (checkDuplicateMessages default_spam_config ?h aaaaa)"
    by (simp add: dup empty_result_def)
  ultimately show ?thesis using a r by blast
qed

text \<open>
  C2, amended. The duplicate check flags exactly when the number of exact content matches
  in the window, the current message included, exceeds \<open>maxDuplicateMessages\<close>, with
  confidence \<open>min(count*20, 80)\<close> and severity \<open>min(count*15, 60)\<close>; inside \<open>analyzeMessage\<close>
  the count is one more than the stored copies younger than five minutes. Hence, for a
  user whose history holds no copy of the content, with \<open>maxDuplicateMessages = m\<close> and all
  sends within the five minutes before the current one: the duplicate check counts the
  sends; the send number \<open>m + 1\<close> is flagged as spam with the duplicate reason; on the send
  number \<open>m\<close> the duplicate check does not flag, no duplicate reason is reported, and the
  analysis is flagged exactly when the frequency, pattern or similarity check flags it.
  When moreover the history of the user was empty, \<open>m < 5\<close> and
  \<open>m \<le> maxMessagesPerMinute\<close>, the send number \<open>m\<close> is flagged exactly when the content shows
  one of the five patterns.
\<close>

theorem C2_duplicate_check:
  assumes "maxDuplicateMessages cfg = int m"
      and "\<forall>x \<in> set (history s userId). msg.content x \<noteq> cnt"
      and "\<forall>t \<in> set ts. t \<le> now \<and> now - t < 5 * 60 * 1000"
  shows "(isSpam (checkDuplicateMessages cfg' msgs c) \<longleftrightarrow>
            int (copies c msgs) > maxDuplicateMessages cfg')
       \<and> (int (copies c msgs) > maxDuplicateMessages cfg' \<longrightarrow>
            check_result.confidence (checkDuplicateMessages cfg' msgs c) = min (real (copies c msgs) * 20) 80
          \<and> check_result.severity (checkDuplicateMessages cfg' msgs c) = min (real (copies c msgs) * 15) 60)
       \<and> copies c (recent_history s0 u c chan now) =
            Suc (length (filter (\<lambda>x. msg.content x = c \<and> msg.timestamp x > now - 300000) (history s0 u)))
       \<and> (let s' = sendAll cfg s userId cnt ts;
               h = recent_history s' userId cnt chan now;
               a = fst (analyzeMessage cfg s' userId cnt chan now)
           in copies cnt h = length ts + 1
            \<and> (isSpam (checkDuplicateMessages cfg h cnt) \<longleftrightarrow> length ts + 1 > m)
            \<and> (isSpam a \<longleftrightarrow>
                 isSpam (checkDuplicateMessages cfg h cnt)
               \<or> isSpam (checkMessageFrequency cfg h now)
               \<or> isSpam (checkContentPatterns cnt)
               \<or> isSpam (checkMessageSimilarity h cnt))
            \<and> (length ts + 1 = m + 1 \<longrightarrow>
                 isSpam a \<and> DuplicateMessage (m + 1) \<in> set (reasons a))
            \<and> (length ts + 1 = m \<longrightarrow>
                 \<not> isSpam (checkDuplicateMessages cfg h cnt)
               \<and> (\<forall>n. DuplicateMessage n \<notin> set (reasons a))
               \<and> (isSpam a \<longleftrightarrow>
                    isSpam (checkMessageFrequency cfg h now)
                  \<or> isSpam (checkContentPatterns cnt)
                  \<or> isSpam (checkMessageSimilarity h cnt)))
            \<and> (length ts + 1 = m \<and> history s userId = [] \<and> m < 5
                 \<and> int m \<le> maxMessagesPerMinute cfg \<longrightarrow>
                 (isSpam a \<longleftrightarrow> isSpam (checkContentPatterns cnt))))"
proof -
  let ?s = "sendAll cfg s userId cnt ts"
  let ?h = "recent_history ?s userId cnt chan now"
  let ?a = "fst (analyzeMessage cfg ?s userId cnt chan now)"
  have none: "copies cnt (history s userId) = 0"
    using assms(2) by (simp add: copies_def filter_empty_conv)
  have old: "\<forall>x \<in> set (history s userId). msg.content x = cnt \<longrightarrow> msg.timestamp x > now - 300000"
    using assms(2) by simp
  have win: "\<forall>t \<in> set ts. t \<le> now \<and> t > now - 300000"
    using assms(3) by auto
  have sent: "copies cnt (history ?s userId) = length ts"
    and kept: "\<forall>x \<in> set (history ?s userId). msg.content x = cnt \<longrightarrow> msg.timestamp x > now - 300000"
    using copies_sendAll [OF old win, of cfg] none by simp_all
  have k: "copies cnt ?h = length ts + 1"
    using recent_history_keeps(1) [OF kept, of now chan] sent by simp
  have dup: "isSpam (checkDuplicateMessages cfg ?h cnt) \<longleftrightarrow> length ts + 1 > m"
    using k assms(1) by (simp add: isSpam_checkDuplicateMessages) arith
  have whole: "isSpam ?a \<longleftrightarrow>
                 isSpam (checkDuplicateMessages cfg ?h cnt)
               \<or> isSpam (checkMessageFrequency cfg ?h now)
               \<or> isSpam (checkContentPatterns cnt)
               \<or> isSpam (checkMessageSimilarity ?h cnt)"
    by (rule analyzeMessage_isSpam)
  have next_send: "length ts + 1 = m + 1 \<longrightarrow>
      isSpam ?a \<and> DuplicateMessage (m + 1) \<in> set (reasons ?a)"
    using k assms(1) dup
    by (simp add: analyzeMessage_isSpam analyzeMessage_duplicate_reason)
  have quiet: "length ts + 1 = m \<longrightarrow>
      \<not> isSpam (checkDuplicateMessages cfg ?h cnt) \<and> (\<forall>n. DuplicateMessage n \<notin> set (reasons ?a))"
    using k assms(1) dup
    by (simp add: analyzeMessage_duplicate_reason)
  have this_send: "length ts + 1 = m \<longrightarrow>
      \<not> isSpam (checkDuplicateMessages cfg ?h cnt) \<and> (\<forall>n. DuplicateMessage n \<notin> set (reasons ?a))
      \<and> (isSpam ?a \<longleftrightarrow>
                    isSpam (checkMessageFrequency cfg ?h now)
                  \<or> isSpam (checkContentPatterns cnt)
                  \<or> isSpam (checkMessageSimilarity ?h cnt))"
    using quiet whole by blast
  have fresh: "length ts + 1 = m \<and> history s userId = [] \<and> m < 5
                 \<and> int m \<le> maxMessagesPerMinute cfg \<longrightarrow>
                 (isSpam ?a \<longleftrightarrow> isSpam (checkContentPatterns cnt))"
  proof
    assume f: "length ts + 1 = m \<and> history s userId = [] \<and> m < 5
                 \<and> int m \<le> maxMessagesPerMinute cfg"
    then have "\<forall>x \<in> set (history s userId). msg.content x = cnt" by simp
    then have same: "\<forall>x \<in> set ?h. msg.content x = cnt"
      by (intro recent_history_same sendAll_same)
    then have len: "length ?h = m" using copies_same [OF same] k f by simp
    have "\<not> isSpam (checkMessageSimilarity ?h cnt)"
      using checkMessageSimilarity_same [OF same] by (simp add: empty_result_def)
    moreover have "\<not> isSpam (checkMessageFrequency cfg ?h now)"
      using f len by (intro checkMessageFrequency_few) simp_all
    ultimately show "isSpam ?a \<longleftrightarrow> isSpam (checkContentPatterns cnt)"
      using whole quiet f by blast
  qed
  have flags: "isSpam (checkDuplicateMessages cfg' msgs c) \<longleftrightarrow>
            int (copies c msgs) > maxDuplicateMessages cfg'"
    by (rule isSpam_checkDuplicateMessages)
  have weights: "int (copies c msgs) > maxDuplicateMessages cfg' \<longrightarrow>
            check_result.confidence (checkDuplicateMessages cfg' msgs c) = min (real (copies c msgs) * 20) 80
          \<and> check_result.severity (checkDuplicateMessages cfg' msgs c) = min (real (copies c msgs) * 15) 60"
    by (simp add: checkDuplicateMessages_flagged)
  have count: "copies c (recent_history s0 u c chan now) =
            Suc (length (filter (\<lambda>x. msg.content x = c \<and> msg.timestamp x > now - 300000) (history s0 u)))"
    by (rule copies_recent_history)
  show ?thesis
    unfolding Let_def
    by (intro conjI) (rule flags weights count k dup whole next_send this_send fresh)+
qed

text \<open>
  The theorem with the default configuration, a new detector and the content "hi": the
  second send, one second after the first, is flagged with the duplicate reason; the
  first send is not flagged at all.
\<close>

theorem C2_duplicate_check_witness:
  "isSpam (fst (analyzeMessage default_spam_config
            (sendAll default_spam_config new_SpamDetection ''42'' [104, 105] [0])
            ''42'' [104, 105] None 1000))
   \<and> DuplicateMessage 2 \<in> set (reasons (fst (analyzeMessage default_spam_config
            (sendAll default_spam_config new_SpamDetection ''42'' [104, 105] [0])
            ''42'' [104, 105] None 1000)))
   \<and> \<not> isSpam (checkDuplicateMessages default_spam_config
            (recent_history new_SpamDetection ''42'' [104, 105] None 0) [104, 105])
   \<and> \<not> isSpam (fst (analyzeMessage default_spam_config new_SpamDetection ''42'' [104, 105] None 0))"
proof -
  let ?cfg = "default_spam_config"
  have m: "maxDuplicateMessages ?cfg = int 1" by (simp add: default_spam_config_def)
  have fresh: "\<forall>x \<in> set (history new_SpamDetection ''42''). msg.content x \<noteq> [104, 105]"
    by (simp add: history_def new_SpamDetection_def)
  have second: "\<forall>t \<in> set [0::int]. t \<le> 1000 \<and> 1000 - t < 5 * 60 * 1000" by simp
  have first: "\<forall>t \<in> set ([]::int list). t \<le> 0 \<and> 0 - t < 5 * 60 * 1000" by simp
  let ?s1 = "sendAll ?cfg new_SpamDetection ''42'' [104, 105] [0]"
  have "length [0::int] + 1 = 1 + 1 \<longrightarrow>
          isSpam (fst (analyzeMessage ?cfg ?s1 ''42'' [104, 105] None 1000))
        \<and> DuplicateMessage (1 + 1) \<in> set (reasons (fst (analyzeMessage ?cfg ?s1 ''42'' [104, 105] None 1000)))"
    using C2_duplicate_check [OF m fresh second, of ?cfg "[]" "[]" new_SpamDetection "''42''" None,
        unfolded Let_def]
    by blast
  then have a: "isSpam (fst (analyzeMessage ?cfg ?s1 ''42'' [104, 105] None 1000))
     \<and> DuplicateMessage 2 \<in> set (reasons (fst (analyzeMessage ?cfg ?s1 ''42'' [104, 105] None 1000)))"
    by (simp add: numeral_2_eq_2)
  note at_first = C2_duplicate_check [OF m fresh first, of ?cfg "[]" "[]" new_SpamDetection "''42''" None,
        unfolded Let_def]
  have "length ([]::int list) + 1 = 1 \<longrightarrow>
          \<not> isSpam (checkDuplicateMessages ?cfg
            (recent_history (sendAll ?cfg new_SpamDetection ''42'' [104, 105] []) ''42'' [104, 105] None 0)
            [104, 105])"
    using at_first by blast
  then have b: "\<not> isSpam (checkDuplicateMessages ?cfg
            (recent_history new_SpamDetection ''42'' [104, 105] None 0) [104, 105])"
    by simp
  have "length ([]::int list) + 1 = 1 \<and> history new_SpamDetection ''42'' = [] \<and> (1::nat) < 5
        \<and> int 1 \<le> maxMessagesPerMinute ?cfg \<longrightarrow>
        (isSpam (fst (analyzeMessage ?cfg (sendAll ?cfg new_SpamDetection ''42'' [104, 105] [])
                  ''42'' [104, 105] None 0))
         \<longleftrightarrow> isSpam (checkContentPatterns [104, 105]))"
    using at_first by blast
  moreover have "\<not> isSpam (checkContentPatterns [104, 105])"
    by (simp add: checkContentPatterns_def Let_def flag_def empty_result_def
        lineTerminator_def capital_def emoji_def zalgo_def invisible_def)
  ultimately have c: "\<not> isSpam (fst (analyzeMessage ?cfg new_SpamDetection ''42'' [104, 105] None 0))"
    by (simp add: history_def new_SpamDetection_def default_spam_config_def)
  show ?thesis using a b c by blast
qed

section \<open>Raid evaluation in the security module\<close>

lemma evaluateWindow_confidence:
  "raid_analysis.confidence (evaluateWindow thr w) = window_confidence thr w"
  by (simp add: evaluateWindow_def window_confidence_def riskySignal_def meanRiskSignal_def
      newAccountSignal_def Let_def)

lemma evaluateWindow_isRaid:
  "raid_analysis.isRaid (evaluateWindow thr w) \<longleftrightarrow> raid_analysis.confidence (evaluateWindow thr w) \<ge> 60"
  by (simp add: evaluateWindow_def Let_def)

lemma evaluateWindow_recommendations:
  "raid_analysis.recommendations (evaluateWindow thr w) =
     (if int (length w) \<ge> thr
      then (if riskySignal w then [''Enable verification requirements''] else [])
         @ (if meanRiskSignal w then [''Temporarily restrict new member permissions''] else [])
         @ (if newAccountSignal w then [''Implement account age requirements''] else [])
      else [])
     @ (if raid_analysis.confidence (evaluateWindow thr w) \<ge> 60
        then [''Consider enabling server lockdown''] else [])"
  by (simp add: evaluateWindow_def riskySignal_def meanRiskSignal_def newAccountSignal_def Let_def)

lemma detectRaid_fst: "fst (detectRaid thr s g u now) = evaluateWindow thr (window s g u now)"
  by (simp add: detectRaid_def Let_def)

lemma detectRaid_stores_window:
  "\<exists>d. raidDetection (snd (detectRaid thr s g u now)) g = Some d
       \<and> raid_data.recentJoins d = window s g u now"
  by (simp add: detectRaid_def Let_def)

lemma isRaid_iff_signal:
  "raid_analysis.isRaid (evaluateWindow thr w) \<longleftrightarrow>
     int (length w) \<ge> thr \<and> (riskySignal w \<or> meanRiskSignal w \<or> newAccountSignal w)"
  by (simp add: evaluateWindow_isRaid evaluateWindow_confidence window_confidence_def)

lemma newcomer_window:
  "window new_SecurityModule ''g'' newcomer 1420070461000 =
     [\<lparr>joinUserId = 4194304000, joinTimestamp = 1420070461000, joinRiskScore = 50,
       joinAccountAge = 60000\<rparr>]"
  by (simp add: window_def new_SecurityModule_def analyzeUser_def newcomer_def Let_def
      usernamePatterns_def str_def letter_def digit_def canon_def)

text \<open>
  C3, as stated, at a concrete input: the first join of a guild with \<open>joinThreshold = 5\<close>,
  by an account created one minute earlier without an avatar (risk score 50). All three
  risk conditions hold on the window, so the bonuses of the claim add up to 105 and a
  raid would be declared; the code leaves the confidence at 0 and declares none.
\<close>

theorem C3_counterexample:
  "length (window new_SecurityModule ''g'' newcomer 1420070461000) = 1
   \<and> riskySignal (window new_SecurityModule ''g'' newcomer 1420070461000)
   \<and> meanRiskSignal (window new_SecurityModule ''g'' newcomer 1420070461000)
   \<and> newAccountSignal (window new_SecurityModule ''g'' newcomer 1420070461000)
   \<and> independent_confidence 5 (window new_SecurityModule ''g'' newcomer 1420070461000) = 105
   \<and> raid_analysis.confidence (fst (detectRaid 5 new_SecurityModule ''g'' newcomer 1420070461000)) = 0
   \<and> \<not> raid_analysis.isRaid (fst (detectRaid 5 new_SecurityModule ''g'' newcomer 1420070461000))"
  by (simp add: detectRaid_fst evaluateWindow_isRaid evaluateWindow_confidence newcomer_window
      window_confidence_def independent_confidence_def riskySignal_def meanRiskSignal_def
      newAccountSignal_def)

text \<open>
  C3, amended. The raid evaluation over the pruned join window, the current join included,
  adds 30 when the windowed join count reaches the configured joinThreshold and, only in
  that case, 40 more when at least 60% of the windowed joins carry a risk score above 30
  (recommending verification), 30 more when the mean risk score exceeds 40 (recommending
  to restrict new-member permissions) and 35 more when at least 70% of the windowed joins
  are accounts younger than 24 hours (recommending account-age requirements); below the
  threshold the confidence stays 0. A raid is declared exactly when the confidence is
  at least 60, and then server lockdown is recommended as well.
\<close>

theorem C3_detectRaid:
  "raid_analysis.confidence (fst (detectRaid thr s g u now)) =
     (if int (length (window s g u now)) \<ge> thr
      then 30 + (if riskySignal (window s g u now) then 40 else 0)
              + (if meanRiskSignal (window s g u now) then 30 else 0)
              + (if newAccountSignal (window s g u now) then 35 else 0)
      else 0)
   \<and> (raid_analysis.isRaid (fst (detectRaid thr s g u now)) \<longleftrightarrow>
        raid_analysis.confidence (fst (detectRaid thr s g u now)) \<ge> 60)
   \<and> raid_analysis.recommendations (fst (detectRaid thr s g u now)) =
       (if int (length (window s g u now)) \<ge> thr
        then (if riskySignal (window s g u now) then [''Enable verification requirements''] else [])
           @ (if meanRiskSignal (window s g u now)
              then [''Temporarily restrict new member permissions''] else [])
           @ (if newAccountSignal (window s g u now)
              then [''Implement account age requirements''] else [])
        else [])
       @ (if raid_analysis.confidence (fst (detectRaid thr s g u now)) \<ge> 60
          then [''Consider enabling server lockdown''] else [])
   \<and> (\<exists>d. raidDetection (snd (detectRaid thr s g u now)) g = Some d
          \<and> raid_data.recentJoins d = window s g u now)"
  using evaluateWindow_confidence [of thr "window s g u now"]
    evaluateWindow_isRaid [of thr "window s g u now"]
    evaluateWindow_recommendations [of thr "window s g u now"]
    detectRaid_stores_window [of thr s g u now]
  unfolding detectRaid_fst window_confidence_def
  by blast

text \<open>
  The theorem at the newcomer joining a guild with \<open>joinThreshold = 1\<close>: the join count
  and the three signals give confidence 135 and a raid is declared.
\<close>

theorem C3_detectRaid_witness:
  "raid_analysis.confidence (fst (detectRaid 1 new_SecurityModule ''g'' newcomer 1420070461000)) = 135
   \<and> raid_analysis.isRaid (fst (detectRaid 1 new_SecurityModule ''g'' newcomer 1420070461000))"
proof -
  note inst = C3_detectRaid [of 1 new_SecurityModule "''g''" newcomer 1420070461000]
  have sig: "riskySignal (window new_SecurityModule ''g'' newcomer 1420070461000)"
      "meanRiskSignal (window new_SecurityModule ''g'' newcomer 1420070461000)"
      "newAccountSignal (window new_SecurityModule ''g'' newcomer 1420070461000)"
      "length (window new_SecurityModule ''g'' newcomer 1420070461000) = 1"
    by (simp_all add: newcomer_window riskySignal_def meanRiskSignal_def newAccountSignal_def)
  have c: "raid_analysis.confidence (fst (detectRaid 1 new_SecurityModule ''g'' newcomer 1420070461000)) = 135"
    using inst sig by simp
  moreover have "raid_analysis.isRaid (fst (detectRaid 1 new_SecurityModule ''g'' newcomer 1420070461000))
       \<longleftrightarrow> raid_analysis.confidence (fst (detectRaid 1 new_SecurityModule ''g'' newcomer 1420070461000)) \<ge> 60"
    using inst by blast
  ultimately show ?thesis by simp
qed

section \<open>The join threshold\<close>

lemma checkRaidConditions_isRaid:
  "raid_check.isRaid (checkRaidConditions rpc gc d now) \<longleftrightarrow>
     int (length (filter (\<lambda>j. now - joinedAt j < js_or (guild_raid_config.timeWindow gc) (defaultTimeWindow rpc))
            (joins d)))
       \<ge> js_or (joinThreshold gc) (defaultJoinThreshold rpc)"
  by (simp add: checkRaidConditions_def Let_def)

lemma tracked_monitorJoin:
  assumes "guild_raid_config.enabled gc"
  shows "tracked (snd (monitorJoin rpc gc tr g u now)) g =
           filter (\<lambda>j. now - joinedAt j < js_or (guild_raid_config.timeWindow gc) (defaultTimeWindow rpc))
             (tracked tr g @
               [\<lparr>joinedUserId = user_id u, username = user.username u,
                 discriminator = user.discriminator u,
                 accountCreated = createdTimestamp u, joinedAt = now,
                 avatar = user.avatar u, suspicious = False\<rparr>])"
  using assms by (simp add: monitorJoin_def tracked_def Let_def split: option.splits)

lemma monitorJoin_isRaid:
  assumes "guild_raid_config.enabled gc"
  shows "\<exists>rc. fst (monitorJoin rpc gc tr g u now) = Some rc
     \<and> (raid_check.isRaid rc \<longleftrightarrow>
          int (length (tracked (snd (monitorJoin rpc gc tr g u now)) g))
            \<ge> js_or (joinThreshold gc) (defaultJoinThreshold rpc))"
  using assms
  by (simp add: monitorJoin_def tracked_def Let_def checkRaidConditions_isRaid split: option.splits)

lemma tracked_monitorJoin_keeps:
  assumes "guild_raid_config.enabled gc"
      and W: "W = js_or (guild_raid_config.timeWindow gc) (defaultTimeWindow rpc)"
      and old: "\<forall>j \<in> set (tracked tr g). T - joinedAt j < W"
      and now: "now \<le> T" "T - now < W"
  shows "length (tracked (snd (monitorJoin rpc gc tr g u now)) g) = Suc (length (tracked tr g))
       \<and> (\<forall>j \<in> set (tracked (snd (monitorJoin rpc gc tr g u now)) g). T - joinedAt j < W)"
proof -
  let ?new = "\<lparr>joinedUserId = user_id u, username = user.username u,
                 discriminator = user.discriminator u,
                 accountCreated = createdTimestamp u, joinedAt = now,
                 avatar = user.avatar u, suspicious = False\<rparr>"
  have "\<forall>j \<in> set (tracked tr g @ [?new]). now - joinedAt j < W"
    using old now by auto
  then have "filter (\<lambda>j. now - joinedAt j < W) (tracked tr g @ [?new]) = tracked tr g @ [?new]"
    by (simp only: filter_id_conv)
  then have eq: "tracked (snd (monitorJoin rpc gc tr g u now)) g = tracked tr g @ [?new]"
    using tracked_monitorJoin [OF assms(1), of rpc tr g u now] W by simp
  show ?thesis
    unfolding eq using old now by auto
qed

lemma tracked_monitorAll:
  assumes "guild_raid_config.enabled gc"
      and W: "W = js_or (guild_raid_config.timeWindow gc) (defaultTimeWindow rpc)"
      and old: "\<forall>j \<in> set (tracked tr g). T - joinedAt j < W"
      and ts: "\<forall>(u, t) \<in> set js. t \<le> T \<and> T - t < W"
  shows "length (tracked (monitorAll rpc gc tr g js) g) = length (tracked tr g) + length js
       \<and> (\<forall>j \<in> set (tracked (monitorAll rpc gc tr g js) g). T - joinedAt j < W)"
  using old ts
proof (induction js arbitrary: tr)
  case Nil
  then show ?case by simp
next
  case (Cons a js)
  obtain u t where a: "a = (u, t)" by (cases a)
  have t: "t \<le> T" "T - t < W" using Cons.prems(2) a by auto
  note step = tracked_monitorJoin_keeps [OF assms(1) W Cons.prems(1) t, of u]
  have rest: "\<forall>(u, t) \<in> set js. t \<le> T \<and> T - t < W" using Cons.prems(2) by simp
  from Cons.IH [OF conjunct2 [OF step] rest] conjunct1 [OF step]
  show ?case by (simp add: a)
qed

text \<open>
  C4, as stated, at a concrete input, for the raid evaluation of the security module:
  five established accounts (risk score 0) join a guild with \<open>joinThreshold = 5\<close> within
  four seconds. On the fifth join the window holds five joins, the confidence is 30 and
  no raid is reported.
\<close>

theorem C4_counterexample:
  "fst (detectRaid 5
         (joinAll 5 new_SecurityModule ''g''
            [(established 0, 1500000000000), (established 1, 1500000001000),
             (established 2, 1500000002000), (established 3, 1500000003000)])
         ''g'' (established 4) 1500000004000)
     = \<lparr>raid_analysis.isRaid = False, confidence = 30, joinCount = 5, suspiciousCount = 0,
        averageRisk = 0, recommendations = []\<rparr>"
  by (simp add: detectRaid_def window_def evaluateWindow_def new_SecurityModule_def analyzeUser_def
      established_def Let_def usernamePatterns_def str_def letter_def digit_def canon_def)

text \<open>
  C4, amended. In the raid protection module (\<open>monitorJoin\<close> with \<open>checkRaidConditions\<close>),
  for a guild with the protection enabled and \<open>joinThreshold = 5\<close> and no join tracked
  before: when all joins fall within the configured time window before the current join,
  the check of the current join reports \<open>isRaid\<close> exactly when it is at least the fifth
  join; so the fifth join reports a raid and the fourth does not. In the security module
  (\<open>detectRaid\<close>) a window with fewer joins than the threshold never reports a raid, and a
  window that reaches the threshold reports a raid exactly when one of the three risk
  signals holds as well.
\<close>

theorem C4_join_threshold:
  assumes "guild_raid_config.enabled gc" and "joinThreshold gc = Some 5"
      and "W = js_or (guild_raid_config.timeWindow gc) (defaultTimeWindow rpc)"
      and "tracked tr g = []"
      and "\<forall>(m, t) \<in> set js. t \<le> now \<and> now - t < W"
      and "0 < W"
  shows "(\<exists>rc. fst (monitorJoin rpc gc (monitorAll rpc gc tr g js) g u now) = Some rc
            \<and> (raid_check.isRaid rc \<longleftrightarrow> length js + 1 \<ge> 5))
       \<and> (int (length (window s g' u' now')) < thr \<longrightarrow>
            \<not> raid_analysis.isRaid (fst (detectRaid thr s g' u' now')))
       \<and> (int (length (window s g' u' now')) \<ge> thr \<longrightarrow>
            (raid_analysis.isRaid (fst (detectRaid thr s g' u' now')) \<longleftrightarrow>
               riskySignal (window s g' u' now') \<or> meanRiskSignal (window s g' u' now')
             \<or> newAccountSignal (window s g' u' now')))"
proof -
  let ?tr = "monitorAll rpc gc tr g js"
  have old: "\<forall>j \<in> set (tracked tr g). now - joinedAt j < W"
    using assms(4) by simp
  have all: "length (tracked ?tr g) = length js"
    and kept: "\<forall>j \<in> set (tracked ?tr g). now - joinedAt j < W"
    using tracked_monitorAll [OF assms(1) assms(3) old assms(5)] assms(4) by simp_all
  have cur: "now \<le> now" "now - now < W" using assms(6) by simp_all
  have n: "length (tracked (snd (monitorJoin rpc gc ?tr g u now)) g) = Suc (length js)"
    using tracked_monitorJoin_keeps [OF assms(1) assms(3) kept cur, of u] all by simp
  obtain rc where rc: "fst (monitorJoin rpc gc ?tr g u now) = Some rc"
      "raid_check.isRaid rc \<longleftrightarrow>
         int (length (tracked (snd (monitorJoin rpc gc ?tr g u now)) g))
           \<ge> js_or (joinThreshold gc) (defaultJoinThreshold rpc)"
    using monitorJoin_isRaid [OF assms(1), of rpc ?tr g u now] by blast
  have "raid_check.isRaid rc \<longleftrightarrow> length js + 1 \<ge> 5"
    using rc(2) n assms(2) by (simp add: js_or_def)
  with rc(1) have rp: "\<exists>rc. fst (monitorJoin rpc gc ?tr g u now) = Some rc
            \<and> (raid_check.isRaid rc \<longleftrightarrow> length js + 1 \<ge> 5)"
    by blast
  show ?thesis
    using rp isRaid_iff_signal [of thr "window s g' u' now'"]
    unfolding detectRaid_fst by auto
qed

text \<open>
  The theorem for the default configuration and a guild with \<open>joinThreshold = 5\<close> and a
  time window of one minute: the fifth of five joins within four seconds reports a raid,
  the fourth does not.
\<close>

theorem C4_join_threshold_witness:
  "(\<exists>rc. fst (monitorJoin default_rp_config
               guild5
               (monitorAll default_rp_config
                  guild5
                  Map.empty ''g''
                  [(established 0, 1500000000000), (established 1, 1500000001000),
                   (established 2, 1500000002000), (established 3, 1500000003000)])
               ''g'' (established 4) 1500000004000) = Some rc
         \<and> raid_check.isRaid rc)
   \<and> (\<exists>rc. fst (monitorJoin default_rp_config
               guild5
               (monitorAll default_rp_config
                  guild5
                  Map.empty ''g''
                  [(established 0, 1500000000000), (established 1, 1500000001000),
                   (established 2, 1500000002000)])
               ''g'' (established 3) 1500000003000) = Some rc
         \<and> \<not> raid_check.isRaid rc)"
proof -
  let ?gc = guild5
  have e: "guild_raid_config.enabled ?gc" and t: "joinThreshold ?gc = Some 5"
    and w: "(60000::int) = js_or (guild_raid_config.timeWindow ?gc) (defaultTimeWindow default_rp_config)"
    and none: "tracked Map.empty ''g'' = []" and pos: "(0::int) < 60000"
    by (simp_all add: js_or_def tracked_def guild5_def default_rp_config_def)
  have four: "\<forall>(m, t) \<in> set [(established 0, 1500000000000), (established 1, 1500000001000),
        (established 2, 1500000002000), (established 3, 1500000003000)].
        t \<le> 1500000004000 \<and> 1500000004000 - t < (60000::int)"
    by simp
  have three: "\<forall>(m, t) \<in> set [(established 0, 1500000000000), (established 1, 1500000001000),
        (established 2, 1500000002000)].
        t \<le> 1500000003000 \<and> 1500000003000 - t < (60000::int)"
    by simp
  have a: "\<exists>rc. fst (monitorJoin default_rp_config ?gc
               (monitorAll default_rp_config ?gc Map.empty ''g''
                  [(established 0, 1500000000000), (established 1, 1500000001000),
                   (established 2, 1500000002000), (established 3, 1500000003000)])
               ''g'' (established 4) 1500000004000) = Some rc
         \<and> raid_check.isRaid rc"
    using C4_join_threshold [OF e t w none four pos, of "established 4"] by simp
  have b: "\<exists>rc. fst (monitorJoin default_rp_config ?gc
               (monitorAll default_rp_config ?gc Map.empty ''g''
                  [(established 0, 1500000000000), (established 1, 1500000001000),
                   (established 2, 1500000002000)])
               ''g'' (established 3) 1500000003000) = Some rc
         \<and> \<not> raid_check.isRaid rc"
    using C4_join_threshold [OF e t w none three pos, of "established 3"] by simp
  show ?thesis using a b by blast
qed

section \<open>The content filter\<close>

lemma determineAction_filter_floor:
  "determineAction_filter sev userId =
     (if sev \<ge> 4 then Ban else if sev \<ge> 3 then Kick else if sev \<ge> 2 then Timeout
      else if sev \<ge> 1 then Warn else Delete)"
  by (simp add: determineAction_filter_def)

lemma analyzeContent_clean:
  assumes "filter_config.enabled (config cf)"
      and "\<not> isWhitelisted (config cf) m"
      and "detectionCache cf (authorId m, hashString (message.content m)) = None
           \<or> (\<exists>r t. detectionCache cf (authorId m, hashString (message.content m)) = Some (r, t)
                      \<and> \<not> now - t < cacheTimeout)"
      and "\<not> filtered (analyzeText cf (message.content m))"
      and "attachments m = [] \<or> \<not> filtered (analyzeAttachments (config cf) (attachments m))"
  shows "fst (analyzeContent cf m now) =
           Analysed \<lparr>filtered = False, severity = 0, detections = [], confidence = 0,
                     language = ''unknown'', action = Delete, reason = None\<rparr>"
  using assms
  by (auto simp: analyzeContent_def Let_def determineAction_filter_def)

lemma scanLanguage_strict:
  assumes "\<not> filtered a" "detections a = []"
  shows "(\<not> filtered (scanLanguage True lang n ps a) \<and> detections (scanLanguage True lang n ps a) = [])
       \<or> (filtered (scanLanguage True lang n ps a) \<and> length (detections (scanLanguage True lang n ps a)) = 1)"
proof (induction ps)
  case Nil
  show ?case using assms by simp
next
  case (Cons p ps)
  obtain pat w where p: "p = (pat, w)" by (cases p)
  show ?case
  proof (cases "countMatches pat n > 0")
    case True
    then show ?thesis using assms(2) by (simp add: p Let_def)
  next
    case False
    then show ?thesis using Cons.IH by (simp add: p Let_def)
  qed
qed

lemma scanLanguages_strict:
  assumes "\<not> filtered a" "detections a = []"
  shows "length (detections (scanLanguages True n ls a)) \<le> 1"
  using assms
proof (induction ls arbitrary: a)
  case Nil
  then show ?case by simp
next
  case (Cons l ls)
  obtain lang ps where l: "l = (lang, ps)" by (cases l)
  from scanLanguage_strict [OF Cons.prems, of lang n ps]
  show ?case
    using Cons.IH [of "scanLanguage True lang n ps a"] by (auto simp: l Let_def)
qed

lemma scanCustom_detections:
  "length (detections (scanCustom n ps a)) \<le> length (detections a) + length ps"
proof (induction ps arbitrary: a)
  case Nil
  show ?case by simp
next
  case (Cons p ps)
  obtain pat w where p: "p = (pat, w)" by (cases p)
  show ?case
    unfolding p scanCustom.simps Let_def
    using Cons.IH [of a]
      Cons.IH [of "a\<lparr>filtered := True, language := ''custom'', severity := max (severity a) 2,
                      confidence := confidence a + 25 * int (countMatches pat n),
                      detections := detections a @ [CustomWord w (countMatches pat n) 2]\<rparr>"]
    by (auto split: if_splits)
qed

lemma analyzeText_strict_bound:
  assumes "strictMode (config cf)"
  shows "length (detections (analyzeText cf cnt))
           \<le> 1 + (case custom (compiledPatterns cf) of None \<Rightarrow> 0 | Some ps \<Rightarrow> length ps)"
proof -
  let ?a = no_detection
  have b: "length (detections (scanLanguages True n (languages (compiledPatterns cf)) ?a)) \<le> 1" for n
    by (rule scanLanguages_strict) (simp_all add: no_detection_def)
  show ?thesis
  proof (cases "custom (compiledPatterns cf)")
    case None
    then show ?thesis using assms b by (simp add: analyzeText_def Let_def no_detection_def)
  next
    case (Some ps)
    have "length (detections (scanCustom n ps (scanLanguages True n (languages (compiledPatterns cf)) ?a)))
            \<le> 1 + length ps" for n
      using scanCustom_detections [of n ps "scanLanguages True n (languages (compiledPatterns cf)) ?a"] b [of n]
      by linarith
    then show ?thesis using assms Some by (simp add: analyzeText_def Let_def no_detection_def)
  qed
qed

subsection \<open>Built-in words\<close>

text \<open>
  A pattern that holds a literal character matches only a text that holds the character
  in one of its cases.
\<close>

lemma matchAt_needs_literal:
  "matchAt items prev s = Some k \<Longrightarrow> Lit c \<in> set items \<Longrightarrow>
     \<exists>x \<in> set s. canonicalize x = canonicalize c"
  by (induction items prev s arbitrary: k rule: matchAt.induct) (auto split: if_splits)

lemma matchesFrom_needs_literal:
  "Lit c \<in> set items \<Longrightarrow> matchesFrom items prev s > 0 \<Longrightarrow>
     \<exists>x \<in> set s. canonicalize x = canonicalize c"
proof (induction items prev s rule: matchesFrom.induct)
  case (1 items prev)
  then show ?case by (auto split: if_splits dest: matchAt_needs_literal)
next
  case (2 items prev x xs)
  show ?case
  proof (cases "matchAt items prev (x # xs)")
    case None
    then show ?thesis using 2 by auto
  next
    case (Some k)
    then show ?thesis using matchAt_needs_literal [OF Some "2.prems"(1)] by blast
  qed
qed

lemma canonicalize_bracket: "canonicalize x = canonicalize CHR '']'' \<Longrightarrow> x = CHR '']''"
proof -
  assume a: "canonicalize x = canonicalize CHR '']''"
  have "(of_char x :: nat) = 93"
    using a by (auto simp: canonicalize_def Let_def split: if_splits)
  then have "(of_char x :: nat) = of_char CHR '']''" by simp
  then show ?thesis by (simp only: of_char_eq_iff)
qed

lemma toLowerCase_char_bracket: "toLowerCase_char c = CHR '']'' \<Longrightarrow> c = CHR '']''"
proof (rule ccontr)
  assume l: "toLowerCase_char c = CHR '']''" and n: "c \<noteq> CHR '']''"
  let ?n = "of_char c :: nat"
  have r: "(65 \<le> ?n \<and> ?n \<le> 90) \<or> (192 \<le> ?n \<and> ?n \<le> 222)"
    and "toLowerCase_char c = char_of (?n + 32)"
    using l n by (auto simp: toLowerCase_char_def Let_def split: if_splits)
  then have "(of_char (CHR '']'') :: nat) = of_char (char_of (?n + 32) :: char)"
    using l by simp
  then have "(93 :: nat) = (?n + 32) mod 256" by simp
  with r show False by auto
qed

lemma toLowerCase_bracket: "CHR '']'' \<in> set (trim (toLowerCase s)) \<Longrightarrow> CHR '']'' \<in> set s"
proof -
  assume "CHR '']'' \<in> set (trim (toLowerCase s))"
  then have "CHR '']'' \<in> set (toLowerCase s)"
    by (auto simp: trim_def dest!: set_dropWhileD)
  then obtain c where "c \<in> set s" "toLowerCase_char c = CHR '']''"
    by (auto simp: toLowerCase_def)
  then show ?thesis using toLowerCase_char_bracket by blast
qed

lemma scanLanguage_no_match:
  "\<forall>(p, w) \<in> set ps. countMatches p n = 0 \<Longrightarrow> scanLanguage strict lang n ps a = a"
  by (induction ps) (auto simp: Let_def)

lemma scanLanguages_no_match:
  "\<forall>(lang, ps) \<in> set ls. \<forall>(p, w) \<in> set ps. countMatches p n = 0 \<Longrightarrow>
     \<not> filtered a \<Longrightarrow> scanLanguages strict n ls a = a"
  by (induction ls) (auto simp: Let_def scanLanguage_no_match)

lemma builtin_patterns_need_bracket:
  "map_option (list_all (\<lambda>(lang, ps). list_all (\<lambda>(p, w). Lit CHR '']'' \<in> set p) ps)) compileBuiltin
     = Some True"
  by code_simp

text \<open>
  The patterns compiled from the built-in lists all hold the literal \<open>]\<close> left over from
  the substituted classes: without custom words, no text without a \<open>]\<close> is filtered.
\<close>

lemma new_ContentFilter_Some:
  assumes "new_ContentFilter cfg = Some cf"
  shows "\<exists>ls. compileBuiltin = Some ls
       \<and> list_all (\<lambda>(lang, ps). list_all (\<lambda>(p, w). Lit CHR '']'' \<in> set p) ps) ls
       \<and> config cf = cfg \<and> languages (compiledPatterns cf) = ls
       \<and> detectionCache cf = Map.empty
       \<and> custom (compiledPatterns cf) =
           (if customWords cfg = [] then None else those (map compileCustomWord (customWords cfg)))"
proof -
  obtain ls where ls: "compileBuiltin = Some ls"
      "list_all (\<lambda>(lang, ps). list_all (\<lambda>(p, w). Lit CHR '']'' \<in> set p) ps) ls"
    using builtin_patterns_need_bracket by (cases compileBuiltin) auto
  have "config cf = cfg \<and> languages (compiledPatterns cf) = ls
       \<and> detectionCache cf = Map.empty
       \<and> custom (compiledPatterns cf) =
           (if customWords cfg = [] then None else those (map compileCustomWord (customWords cfg)))"
    using assms
    by (auto simp: new_ContentFilter_def compilePatterns_def ls(1) split: option.splits if_splits)
  with ls show ?thesis by blast
qed

lemma new_ContentFilter_exists:
  assumes "customWords cfg = [] \<or> those (map compileCustomWord (customWords cfg)) \<noteq> None"
  shows "\<exists>cf. new_ContentFilter cfg = Some cf"
proof -
  obtain ls where ls: "compileBuiltin = Some ls"
    using builtin_patterns_need_bracket by (cases compileBuiltin) auto
  show ?thesis
    using assms
    by (auto simp: new_ContentFilter_def compilePatterns_def ls split: option.splits)
qed

text \<open>
  The patterns compiled from the built-in lists all hold the literal \<open>]\<close> left over from
  the substituted classes: on a text without a \<open>]\<close> no built-in pattern matches, and the
  analysis is the scan of the custom words alone.
\<close>

lemma analyzeText_without_bracket:
  assumes "new_ContentFilter cfg = Some cf" and "CHR '']'' \<notin> set cnt"
  shows "analyzeText cf cnt =
           (if cnt = [] \<or> length (trim cnt) = 0 then no_detection
            else (case custom (compiledPatterns cf) of
                    None \<Rightarrow> no_detection
                  | Some ps \<Rightarrow> scanCustom (trim (toLowerCase cnt)) ps no_detection))"
proof -
  obtain ls where ls: "list_all (\<lambda>(lang, ps). list_all (\<lambda>(p, w). Lit CHR '']'' \<in> set p) ps) ls"
    and cf: "languages (compiledPatterns cf) = ls"
    using new_ContentFilter_Some [OF assms(1)] by blast
  let ?n = "trim (toLowerCase cnt)"
  have no: "\<forall>(lang, ps) \<in> set ls. \<forall>(p, w) \<in> set ps. countMatches p ?n = 0"
  proof (clarify, rule ccontr)
    fix lang ps p w
    assume in_ls: "(lang, ps) \<in> set ls" and in_ps: "(p, w) \<in> set ps"
      and "countMatches p ?n \<noteq> 0"
    then have pos: "matchesFrom p None ?n > 0" by (simp add: countMatches_def)
    have "Lit CHR '']'' \<in> set p"
      using ls in_ls in_ps by (auto simp: list_all_iff)
    from matchesFrom_needs_literal [OF this pos]
    have "CHR '']'' \<in> set ?n" using canonicalize_bracket by blast
    then show False using toLowerCase_bracket assms(2) by blast
  qed
  have "scanLanguages strict ?n ls no_detection = no_detection" for strict
    by (rule scanLanguages_no_match [OF no]) (simp add: no_detection_def)
  then show ?thesis
    by (simp add: analyzeText_def Let_def cf split: option.splits)
qed

lemma builtin_words_never_match:
  assumes "new_ContentFilter cfg = Some cf" and "customWords cfg = []"
      and "CHR '']'' \<notin> set cnt"
  shows "\<not> filtered (analyzeText cf cnt)"
proof -
  have "custom (compiledPatterns cf) = None"
    using new_ContentFilter_Some [OF assms(1)] assms(2) by auto
  then show ?thesis
    by (simp add: analyzeText_without_bracket [OF assms(1,3)] no_detection_def)
qed

text \<open>
  C7, at the failing inputs. The pattern compiled for the built-in word \<open>damn\<close> is
  \<open>\bd[ae[i1!|][o0@]u@3!0]mn\b\<close>: the later substitutions of \<open>o\<close> and \<open>i\<close> rewrite the
  class that the vowel substitution has just inserted. With the default configuration
  none of \<open>damn\<close>, \<open>DAMN\<close> and the variants \<open>d@mn\<close> and \<open>sh1t\<close> is filtered.
  The custom half of the claim holds: with the custom word \<open>spoiler\<close>, the text \<open>No SPOILER please\<close> is filtered and
  the variant \<open>no sp0iler please\<close> is not.
\<close>

theorem C7_builtin_words_not_detected:
  "compileWord ''damn'' =
     Some ([WordB, Lit CHR ''d'', Cls ''ae[i1!|'', Cls ''o0@'', Lit CHR ''u'', Lit CHR ''@'',
            Lit CHR ''3'', Lit CHR ''!'', Lit CHR ''0'', Lit CHR '']'', Lit CHR ''m'',
            Lit CHR ''n'', WordB], ''damn'')
   \<and> map_option (\<lambda>cf. (filtered (analyzeText cf ''damn''), filtered (analyzeText cf ''DAMN''),
                        filtered (analyzeText cf ''d@mn''), filtered (analyzeText cf ''sh1t'')))
        (new_ContentFilter default_filter_config) = Some (False, False, False, False)
   \<and> map_option (\<lambda>cf. (filtered (analyzeText cf ''No SPOILER please''),
                        filtered (analyzeText cf ''no sp0iler please'')))
        (new_ContentFilter spoiler_config) = Some (True, False)"
proof -
  have a: "compileWord ''damn'' =
     Some ([WordB, Lit CHR ''d'', Cls ''ae[i1!|'', Cls ''o0@'', Lit CHR ''u'', Lit CHR ''@'',
            Lit CHR ''3'', Lit CHR ''!'', Lit CHR ''0'', Lit CHR '']'', Lit CHR ''m'',
            Lit CHR ''n'', WordB], ''damn'')"
    by code_simp
  have "customWords default_filter_config = []" by (simp add: default_filter_config_def)
  then obtain cf where cf: "new_ContentFilter default_filter_config = Some cf"
    using new_ContentFilter_exists [of default_filter_config] by blast
  have "\<not> filtered (analyzeText cf ''damn'')" "\<not> filtered (analyzeText cf ''DAMN'')"
       "\<not> filtered (analyzeText cf ''d@mn'')" "\<not> filtered (analyzeText cf ''sh1t'')"
    by (rule builtin_words_never_match [OF cf]; simp add: default_filter_config_def)+
  then have b: "map_option (\<lambda>cf. (filtered (analyzeText cf ''damn''), filtered (analyzeText cf ''DAMN''),
                        filtered (analyzeText cf ''d@mn''), filtered (analyzeText cf ''sh1t'')))
        (new_ContentFilter default_filter_config) = Some (False, False, False, False)"
    using cf by simp
  have words: "customWords spoiler_config = [''spoiler'']"
    by (simp add: spoiler_config_def default_filter_config_def)
  have scan: "map_option (\<lambda>ps. (filtered (scanCustom (trim (toLowerCase ''No SPOILER please'')) ps no_detection),
                                filtered (scanCustom (trim (toLowerCase ''no sp0iler please'')) ps no_detection)))
                (those (map compileCustomWord [''spoiler''])) = Some (True, False)"
    by code_simp
  then obtain ps where ps: "those (map compileCustomWord [''spoiler'']) = Some ps"
      "filtered (scanCustom (trim (toLowerCase ''No SPOILER please'')) ps no_detection)"
      "\<not> filtered (scanCustom (trim (toLowerCase ''no sp0iler please'')) ps no_detection)"
    by auto
  obtain cf' where cf': "new_ContentFilter spoiler_config = Some cf'"
    using new_ContentFilter_exists [of spoiler_config] ps(1) words by auto
  have cust: "custom (compiledPatterns cf') = Some ps"
    using new_ContentFilter_Some [OF cf'] words ps(1) by auto
  have "filtered (analyzeText cf' ''No SPOILER please'')"
    using ps(2) by (simp add: analyzeText_without_bracket [OF cf'] cust trim_def white_def)
  moreover have "\<not> filtered (analyzeText cf' ''no sp0iler please'')"
    using ps(3) by (simp add: analyzeText_without_bracket [OF cf'] cust trim_def white_def)
  ultimately have c: "map_option (\<lambda>cf. (filtered (analyzeText cf ''No SPOILER please''),
                        filtered (analyzeText cf ''no sp0iler please'')))
        (new_ContentFilter spoiler_config) = Some (True, False)"
    using cf' by simp
  show ?thesis using a b c by blast
qed

subsection \<open>Strict mode\<close>

text \<open>
  C9, at the failing input: strict mode with the custom words \<open>foo\<close> and \<open>bar\<close> and the
  text \<open>foo bar\<close>. The analysis holds two detections. (In strict mode the scan of the
  built-in lists stops at its first detection; the loop over the custom words has no
  such stop, see \<open>analyzeText_strict_bound\<close>.)
\<close>

theorem C9_strict_mode_two_detections:
  "map_option (\<lambda>cf. (strictMode (config cf), detections (analyzeText cf ''foo bar'')))
     (new_ContentFilter strict_custom_config)
   = Some (True, [CustomWord ''foo'' 1 2, CustomWord ''bar'' 1 2])"
proof -
  have words: "customWords strict_custom_config = [''foo'', ''bar'']"
    and strict: "strictMode strict_custom_config"
    by (simp_all add: strict_custom_config_def default_filter_config_def)
  have scan: "map_option (\<lambda>ps. detections (scanCustom (trim (toLowerCase ''foo bar'')) ps no_detection))
                (those (map compileCustomWord [''foo'', ''bar'']))
              = Some [CustomWord ''foo'' 1 2, CustomWord ''bar'' 1 2]"
    by code_simp
  then obtain ps where ps: "those (map compileCustomWord [''foo'', ''bar'']) = Some ps"
      "detections (scanCustom (trim (toLowerCase ''foo bar'')) ps no_detection)
         = [CustomWord ''foo'' 1 2, CustomWord ''bar'' 1 2]"
    by auto
  obtain cf where cf: "new_ContentFilter strict_custom_config = Some cf"
    using new_ContentFilter_exists [of strict_custom_config] ps(1) words by auto
  have cust: "custom (compiledPatterns cf) = Some ps" and c: "config cf = strict_custom_config"
    using new_ContentFilter_Some [OF cf] words ps(1) by auto
  have "detections (analyzeText cf ''foo bar'') = [CustomWord ''foo'' 1 2, CustomWord ''bar'' 1 2]"
    using ps(2) by (simp add: analyzeText_without_bracket [OF cf] cust trim_def white_def)
  then show ?thesis using cf c strict by simp
qed

subsection \<open>The action for a clean message\<close>

text \<open>
  C10. With the filter enabled, an author who is not whitelisted and no fresh cached
  result, a message in which neither the text analysis nor the attachment analysis
  filters anything keeps severity 0 and \<open>filtered = false\<close> and is assigned the action
  \<open>delete\<close>: the mapping from severity to action of the content filter ends in \<open>delete\<close>
  and never yields \<open>none\<close>.
\<close>

theorem C10_clean_message_action:
  assumes "filter_config.enabled (config cf)"
      and "\<not> isWhitelisted (config cf) m"
      and "detectionCache cf (authorId m, hashString (message.content m)) = None
           \<or> (\<exists>r t. detectionCache cf (authorId m, hashString (message.content m)) = Some (r, t)
                      \<and> \<not> now - t < cacheTimeout)"
      and "\<not> filtered (analyzeText cf (message.content m))"
      and "attachments m = [] \<or> \<not> filtered (analyzeAttachments (config cf) (attachments m))"
  shows "(\<exists>a. fst (analyzeContent cf m now) = Analysed a
             \<and> content_analysis.action a = Delete \<and> \<not> filtered a
             \<and> filter_analysis.severity a = 0 \<and> detections a = [])
       \<and> determineAction_filter sev userId \<noteq> ANone
       \<and> (determineAction_filter sev userId = Delete \<longleftrightarrow> sev = 0)"
proof -
  have "fst (analyzeContent cf m now) =
           Analysed \<lparr>filtered = False, severity = 0, detections = [], confidence = 0,
                     language = ''unknown'', action = Delete, reason = None\<rparr>"
    by (rule analyzeContent_clean [OF assms])
  then show ?thesis
    by (simp add: determineAction_filter_floor)
qed

text \<open>The theorem at the message \<open>hello world\<close> and a new filter with the default configuration.\<close>

theorem C10_clean_message_action_witness:
  "\<exists>cf a. new_ContentFilter default_filter_config = Some cf
        \<and> fst (analyzeContent cf hello 1000) = Analysed a
        \<and> content_analysis.action a = Delete \<and> \<not> filtered a"
proof -
  have "customWords default_filter_config = []" by (simp add: default_filter_config_def)
  then obtain cf where cf: "new_ContentFilter default_filter_config = Some cf"
    using new_ContentFilter_exists [of default_filter_config] by blast
  have c: "config cf = default_filter_config" "detectionCache cf = Map.empty"
    using new_ContentFilter_Some [OF cf] by auto
  have 1: "filter_config.enabled (config cf)" by (simp add: c default_filter_config_def)
  have 2: "\<not> isWhitelisted (config cf) hello"
    by (simp add: c isWhitelisted_def default_filter_config_def)
  have 3: "detectionCache cf (authorId hello, hashString (message.content hello)) = None
           \<or> (\<exists>r t. detectionCache cf (authorId hello, hashString (message.content hello)) = Some (r, t)
                      \<and> \<not> 1000 - t < cacheTimeout)"
    by (simp add: c)
  have 4: "\<not> filtered (analyzeText cf (message.content hello))"
    by (rule builtin_words_never_match [OF cf]) (simp_all add: default_filter_config_def hello_def)
  have 5: "attachments hello = [] \<or> \<not> filtered (analyzeAttachments (config cf) (attachments hello))"
    by (simp add: hello_def)
  from C10_clean_message_action [OF 1 2 3 4 5, of 1000] cf
  show ?thesis by blast
qed

end
